theory Spec2Isabelle
  imports Complex_Main "HOL-Library.Multiset"
begin

section \<open>JavaScript values used by LiteTable.js\<close>

subsection \<open>Numbers\<close>

text \<open>
  A JavaScript number is a finite value, one of the two infinities, or NaN. The finite
  values are carried exactly: page arithmetic works on integers (\<open>displayLimit\<close> comes
  from \<open>parseInt\<close> or is \<open>Infinity\<close>, page indices are integers, array lengths are
  below \<open>2^32\<close>), where double arithmetic is exact, and the sort comparator only looks
  at the sign of a difference, which double subtraction never loses. Negative zero behaves
  as zero in every comparison made by the source and is not distinguished.
\<close>

datatype 'a jsnum = Fin 'a | PInf | NInf | NaN

fun js_sub :: "'a::linordered_idom jsnum \<Rightarrow> 'a jsnum \<Rightarrow> 'a jsnum" where
  "js_sub NaN _ = NaN"
| "js_sub _ NaN = NaN"
| "js_sub (Fin a) (Fin b) = Fin (a - b)"
| "js_sub (Fin a) PInf = NInf"
| "js_sub (Fin a) NInf = PInf"
| "js_sub PInf PInf = NaN"
| "js_sub PInf _ = PInf"
| "js_sub NInf NInf = NaN"
| "js_sub NInf _ = NInf"

fun js_add :: "'a::linordered_idom jsnum \<Rightarrow> 'a jsnum \<Rightarrow> 'a jsnum" where
  "js_add NaN _ = NaN"
| "js_add _ NaN = NaN"
| "js_add (Fin a) (Fin b) = Fin (a + b)"
| "js_add (Fin a) PInf = PInf"
| "js_add (Fin a) NInf = NInf"
| "js_add PInf NInf = NaN"
| "js_add PInf _ = PInf"
| "js_add NInf PInf = NaN"
| "js_add NInf _ = NInf"

text \<open>The product of an infinity and zero is NaN; otherwise the product of an infinity
  with a number is the infinity of the product of the signs.\<close>

fun inf_times :: "bool \<Rightarrow> 'a::linordered_idom jsnum \<Rightarrow> 'a jsnum" where
  "inf_times pos NaN = NaN"
| "inf_times pos PInf = (if pos then PInf else NInf)"
| "inf_times pos NInf = (if pos then NInf else PInf)"
| "inf_times pos (Fin b) =
     (if b = 0 then NaN else if (0 < b) = pos then PInf else NInf)"

fun js_mul :: "'a::linordered_idom jsnum \<Rightarrow> 'a jsnum \<Rightarrow> 'a jsnum" where
  "js_mul (Fin a) (Fin b) = Fin (a * b)"
| "js_mul PInf y = inf_times True y"
| "js_mul NInf y = inf_times False y"
| "js_mul NaN y = NaN"
| "js_mul x PInf = inf_times True x"
| "js_mul x NInf = inf_times False x"
| "js_mul x NaN = NaN"

text \<open>\<open>a < b\<close>; every comparison with NaN is false. \<open>a > b\<close> is \<open>b < a\<close>.\<close>

fun js_lt :: "'a::linordered_idom jsnum \<Rightarrow> 'a jsnum \<Rightarrow> bool" where
  "js_lt NaN _ = False"
| "js_lt _ NaN = False"
| "js_lt (Fin a) (Fin b) = (a < b)"
| "js_lt _ NInf = False"
| "js_lt NInf _ = True"
| "js_lt PInf _ = False"
| "js_lt _ PInf = True"

definition js_gt :: "'a::linordered_idom jsnum \<Rightarrow> 'a jsnum \<Rightarrow> bool" where
  "js_gt a b = js_lt b a"

text \<open>\<open>a >= b\<close> and \<open>a <= b\<close> on numbers: false with NaN, true on equal values.\<close>

fun js_le :: "'a::linordered_idom jsnum \<Rightarrow> 'a jsnum \<Rightarrow> bool" where
  "js_le NaN _ = False"
| "js_le _ NaN = False"
| "js_le a b = (\<not> js_lt b a)"

definition js_ge :: "'a::linordered_idom jsnum \<Rightarrow> 'a jsnum \<Rightarrow> bool" where
  "js_ge a b = js_le b a"

text \<open>\<open>a === b\<close> on numbers: NaN is not equal to itself.\<close>

fun js_eq :: "'a jsnum \<Rightarrow> 'a jsnum \<Rightarrow> bool" where
  "js_eq NaN _ = False"
| "js_eq _ NaN = False"
| "js_eq a b = (a = b)"

text \<open>\<open>Math.min(a, b)\<close>: NaN if either argument is NaN.\<close>

fun js_min :: "'a::linordered_idom jsnum \<Rightarrow> 'a jsnum \<Rightarrow> 'a jsnum" where
  "js_min NaN _ = NaN"
| "js_min _ NaN = NaN"
| "js_min a b = (if js_lt b a then b else a)"

text \<open>
  \<open>Math.ceil(n / d)\<close> for an array length \<open>n\<close> and an integer-valued \<open>d\<close>:
  \<open>n / \<plusminus>Infinity\<close> is zero, \<open>0 / 0\<close> is NaN, \<open>n / 0\<close> is \<open>Infinity\<close> for
  positive \<open>n\<close>. For \<open>n < 2^32\<close> the rounded quotient never reaches the next integer,
  so the ceiling of the double quotient is the exact one.
\<close>

fun js_ceil_div :: "nat \<Rightarrow> int jsnum \<Rightarrow> int jsnum" where
  "js_ceil_div n NaN = NaN"
| "js_ceil_div n PInf = Fin 0"
| "js_ceil_div n NInf = Fin 0"
| "js_ceil_div n (Fin d) =
     (if d = 0 then (if n = 0 then NaN else PInf)
      else Fin (- ((- int n) div d)))"

text \<open>
  What \<open>Array.prototype.sort\<close> makes of a comparator's result: NaN counts as zero,
  and only the sign is used.
\<close>

fun cmp_sign :: "'a::linordered_idom jsnum \<Rightarrow> int" where
  "cmp_sign (Fin a) = (if a < 0 then - 1 else if 0 < a then 1 else 0)"
| "cmp_sign PInf = 1"
| "cmp_sign NInf = - 1"
| "cmp_sign NaN = 0"

fun is_NaN :: "'a jsnum \<Rightarrow> bool" where
  "is_NaN NaN = True"
| "is_NaN _ = False"

subsection \<open>Array.prototype.sort\<close>

text \<open>
  \<open>Array.prototype.sort\<close> is stable. For a comparator that is a consistent ordering
  the result is therefore determined, and it is the result of this insertion sort: each
  element is put before the first element of the sorted rest that it does not exceed. For
  an inconsistent comparator (NaN differences, for example) ECMAScript leaves the order
  to the engine, and this is one admissible behaviour.
\<close>

fun js_insert :: "('a \<Rightarrow> 'a \<Rightarrow> int) \<Rightarrow> 'a \<Rightarrow> 'a list \<Rightarrow> 'a list" where
  "js_insert cmp x [] = [x]"
| "js_insert cmp x (y # ys) =
     (if cmp x y \<le> 0 then x # y # ys else y # js_insert cmp x ys)"

definition js_sort :: "('a \<Rightarrow> 'a \<Rightarrow> int) \<Rightarrow> 'a list \<Rightarrow> 'a list" where
  "js_sort cmp xs = foldr (js_insert cmp) xs []"

subsection \<open>Strings\<close>

text \<open>
  Strings are lists of characters, one per code unit (code units above 255 are not
  represented).
\<close>

definition is_digit :: "char \<Rightarrow> bool" where
  "is_digit c = (c \<in> set ''0123456789'')"

text \<open>The pattern \<open>/^\d{2}\/\d{2}\/\d{4}$/\<close> of the source.\<close>

fun matchesDatePattern :: "string \<Rightarrow> bool" where
  "matchesDatePattern [d1, d2, s1, m1, m2, s2, y1, y2, y3, y4] =
     (is_digit d1 \<and> is_digit d2 \<and> s1 = CHR ''/'' \<and> is_digit m1 \<and> is_digit m2 \<and>
      s2 = CHR ''/'' \<and> is_digit y1 \<and> is_digit y2 \<and> is_digit y3 \<and> is_digit y4)"
| "matchesDatePattern _ = False"

text \<open>\<open>s.replace(',', '.')\<close>: a string pattern replaces the first occurrence only.\<close>

fun replaceComma :: "string \<Rightarrow> string" where
  "replaceComma [] = []"
| "replaceComma (c # cs) = (if c = CHR '','' then CHR ''.'' # cs else c # replaceComma cs)"

text \<open>\<open>s.split('/')\<close>.\<close>

fun splitSlash :: "string \<Rightarrow> string list" where
  "splitSlash [] = [[]]"
| "splitSlash (c # cs) =
     (if c = CHR ''/'' then [] # splitSlash cs
      else (case splitSlash cs of [] \<Rightarrow> [[c]] | p # ps \<Rightarrow> (c # p) # ps))"

text \<open>\<open>String.prototype.trim\<close>: white space and line terminators among the code units
  represented here.\<close>

definition is_space :: "char \<Rightarrow> bool" where
  "is_space c = (of_char c \<in> {9, 10, 11, 12, 13, 32, 160 :: nat})"

definition js_trim :: "string \<Rightarrow> string" where
  "js_trim s = rev (dropWhile is_space (rev (dropWhile is_space s)))"

text \<open>
  \<open>s.replace(/<[^>]*>/g, '')\<close>: every stretch from a \<open><\<close> to the next \<open>>\<close> is
  removed, scanning from the left; a \<open><\<close> with no \<open>>\<close> after it stays.
\<close>

function stripTags :: "string \<Rightarrow> string" where
  "stripTags [] = []"
| "stripTags (c # cs) =
     (if c = CHR ''<'' then
        (case dropWhile (\<lambda>x. x \<noteq> CHR ''>'') cs of
           [] \<Rightarrow> c # cs
         | _ # rest \<Rightarrow> stripTags rest)
      else c # stripTags cs)"
  by pat_completeness auto
termination
proof (relation "measure length", goal_cases)
  case 1
  show ?case by simp
next
  case (2 c cs x rest)
  have "length (dropWhile (\<lambda>x. x \<noteq> CHR ''>'') cs) \<le> length cs"
    by (rule length_dropWhile_le)
  with 2 show ?case by simp
next
  case 3
  then show ?case by simp
qed

subsection \<open>The runtime\<close>

text \<open>
  The built-ins of the JavaScript runtime that the source calls and whose results depend
  on the engine, its locale data, the time zone or the clock. The functions of the source
  take them as a parameter. Dates are their time values (NaN for an invalid date).
\<close>

record runtime =
  toNumber :: "string \<Rightarrow> rat jsnum"
    \<comment> \<open>\<open>Number(s)\<close>, as applied by \<open>isNaN\<close> and \<open>map(Number)\<close>\<close>
  parseFloat :: "string \<Rightarrow> rat jsnum"
  localeCompare :: "string \<Rightarrow> string \<Rightarrow> int"
    \<comment> \<open>\<open>a.localeCompare(b, 'fr', {sensitivity: 'base', numeric: true})\<close>\<close>
  newDate :: "rat jsnum \<Rightarrow> rat jsnum \<Rightarrow> rat jsnum \<Rightarrow> rat jsnum"
    \<comment> \<open>\<open>new Date(year, monthIndex, day)\<close>, local time\<close>
  newDateString :: "string \<Rightarrow> rat jsnum"
    \<comment> \<open>\<open>new Date(s)\<close>\<close>
  now :: "rat jsnum"
    \<comment> \<open>\<open>new Date()\<close>\<close>
  setHours0 :: "rat jsnum \<Rightarrow> rat jsnum"
    \<comment> \<open>the time value after \<open>d.setHours(0, 0, 0, 0)\<close>\<close>
  getFullYear :: "rat jsnum \<Rightarrow> rat jsnum"
  getMonth :: "rat jsnum \<Rightarrow> rat jsnum"
  getDate :: "rat jsnum \<Rightarrow> rat jsnum"
  getDay :: "rat jsnum \<Rightarrow> rat jsnum"
  setDate :: "rat jsnum \<Rightarrow> rat jsnum \<Rightarrow> rat jsnum"
    \<comment> \<open>the time value after \<open>d.setDate(n)\<close>\<close>

section \<open>Data model\<close>

datatype error = Error string | TypeError string

datatype sort_dir = Asc | Desc

text \<open>
  A cell and a row of the table body as the constructor finds them. \<open>textContent\<close> and
  \<open>innerText\<close> are \<open>None\<close> where the document does not support them. The attributes
  are listed with \<open>title\<close> and \<open>style\<close> among them, each name once.
\<close>

record dom_cell =
  dom_innerHTML :: string
  dom_textContent :: "string option"
  dom_innerText :: "string option"
  dom_attributes :: "(string \<times> string) list"

text \<open>
  A row element (\<open>tr\<close>): what \<open>cloneNode(true)\<close> copies and what the update cycle
  patches, namely the markup and the attributes of its cells and the
  \<open>data-original-index\<close> attribute (kept as the number it is written from and parsed
  back to). The other attributes of a row are copied unchanged and never read.
\<close>

record surface_cell =
  sc_innerHTML :: string
  sc_attributes :: "(string \<times> string) list"

record surface =
  data_original_index :: "nat option"
  s_cells :: "surface_cell list"

record cell_snapshot =
  innerHTML :: string
  textContent :: string
  title :: string
  attributes :: "(string \<times> string) list"

record row_record =
  originalIndex :: nat
  element :: surface
  cells :: "cell_snapshot list"

record sort_state =
  column :: "nat option"
  direction :: "sort_dir option"

record date_range =
  range_from :: "string option"
  range_to :: "string option"

text \<open>
  The fields of a \<open>LiteTableManager\<close> that the update cycle reads or writes. The three
  filter objects are listed in the order in which \<open>Object.entries\<close> enumerates them
  (ascending column index). \<open>tbody\<close> is the list of the children of the body element,
  \<open>hasTableInfo\<close> says whether the container has a \<open>.tableInfo\<close> element and
  \<open>tableInfo\<close> holds the numbers last written to it (shown, filtered, total).
  \<open>allocated\<close> counts the row elements created by the update cycle so far; the source
  does not keep this number.
\<close>

record state =
  displayLimit :: "int jsnum"
  currentPageIndex :: "int jsnum"
  rowsCache :: "row_record list"
  filteredRows :: "row_record list"
  rowPool :: "surface list"
  tbody :: "surface list"
  currentDateFilters :: "(nat \<times> string) list"
  currentValueFilters :: "(nat \<times> string) list"
  currentDateRangeFilters :: "(nat \<times> date_range) list"
  currentSort :: sort_state
  hasTableInfo :: bool
  tableInfo :: "(int jsnum \<times> nat \<times> nat) option"
  allocated :: nat

section \<open>Date utilities\<close>

text \<open>\<open>xs[i]\<close> of a destructuring pattern, handed to arithmetic: a missing element
  is \<open>undefined\<close>, which becomes NaN.\<close>

definition numAt :: "rat jsnum list \<Rightarrow> nat \<Rightarrow> rat jsnum" where
  "numAt xs i = (if i < length xs then xs ! i else NaN)"

definition parseDate :: "runtime \<Rightarrow> string \<Rightarrow> rat jsnum" where
  "parseDate rt dateStr =
     (let parts = map (toNumber rt) (splitSlash dateStr);
          day = numAt parts 0; month = numAt parts 1; year = numAt parts 2
      in newDate rt year (js_sub month (Fin 1)) day)"

section \<open>Sort engine\<close>

datatype column_type = ColText | ColDate | ColNumber

text \<open>\<open>row.cells[columnIndex]?.textContent || ''\<close>\<close>

definition cellTextAt :: "row_record \<Rightarrow> nat \<Rightarrow> string" where
  "cellTextAt r columnIndex =
     (if columnIndex < length (cells r) then textContent (cells r ! columnIndex) else [])"

text \<open>
  \<open>this.rowsCache.find(r => r.cells[columnIndex])?.cells[columnIndex].textContent\<close>:
  the text of the cell in the first row that has a cell at that index, \<open>None\<close> for
  \<open>undefined\<close>.
\<close>

definition sampleValue :: "row_record list \<Rightarrow> nat \<Rightarrow> string option" where
  "sampleValue rc columnIndex =
     (case find (\<lambda>r. columnIndex < length (cells r)) rc of
        None \<Rightarrow> None
      | Some r \<Rightarrow> Some (textContent (cells r ! columnIndex)))"

definition columnTypeOf :: "runtime \<Rightarrow> row_record list \<Rightarrow> nat \<Rightarrow> column_type" where
  "columnTypeOf rt rc columnIndex =
     (case sampleValue rc columnIndex of
        None \<Rightarrow> ColText
      | Some sv \<Rightarrow>
          if sv = [] then ColText
          else if matchesDatePattern sv then ColDate
          else if \<not> is_NaN (toNumber rt (replaceComma sv)) then ColNumber
          else ColText)"

definition multiplierOf :: "sort_dir \<Rightarrow> rat" where
  "multiplierOf d = (if d = Asc then 1 else - 1)"

text \<open>The comparator handed to \<open>this.rowsCache.sort\<close> in \<open>sortRows\<close>.\<close>

definition sortCompare ::
  "runtime \<Rightarrow> column_type \<Rightarrow> nat \<Rightarrow> rat \<Rightarrow> row_record \<Rightarrow> row_record \<Rightarrow> rat jsnum" where
  "sortCompare rt columnType columnIndex multiplier a b =
     (let aValue = cellTextAt a columnIndex; bValue = cellTextAt b columnIndex in
      if aValue = [] \<and> bValue = [] then Fin 0
      else if aValue = [] then Fin (1 * multiplier)
      else if bValue = [] then Fin (- 1 * multiplier)
      else (case columnType of
              ColDate \<Rightarrow>
                js_mul (js_sub (parseDate rt aValue) (parseDate rt bValue)) (Fin multiplier)
            | ColNumber \<Rightarrow>
                js_mul (js_sub (parseFloat rt (replaceComma aValue))
                               (parseFloat rt (replaceComma bValue))) (Fin multiplier)
            | ColText \<Rightarrow>
                Fin (of_int (localeCompare rt aValue bValue) * multiplier)))"

definition sortRows :: "runtime \<Rightarrow> nat \<Rightarrow> sort_dir \<Rightarrow> state \<Rightarrow> state" where
  "sortRows rt columnIndex dir s =
     (let multiplier = multiplierOf dir;
          columnType = columnTypeOf rt (rowsCache s) columnIndex
      in s\<lparr>rowsCache :=
             js_sort (\<lambda>a b. cmp_sign (sortCompare rt columnType columnIndex multiplier a b))
               (rowsCache s)\<rparr>)"

text \<open>\<open>this.rowsCache.sort((a, b) => a.originalIndex - b.originalIndex)\<close>\<close>

definition sortByOriginalIndex :: "row_record list \<Rightarrow> row_record list" where
  "sortByOriginalIndex rc =
     js_sort (\<lambda>a b. cmp_sign (Fin (int (originalIndex a) - int (originalIndex b)))) rc"

section \<open>Filter engine\<close>

text \<open>\<open>Math.floor(x / 3)\<close>\<close>

fun floorThird :: "rat jsnum \<Rightarrow> rat jsnum" where
  "floorThird (Fin q) = Fin (of_int \<lfloor>q / 3\<rfloor>)"
| "floorThird x = x"

definition isDateInRange :: "runtime \<Rightarrow> string \<Rightarrow> string \<Rightarrow> error + bool" where
  "isDateInRange rt dateStr rangeName =
     (if \<not> matchesDatePattern dateStr then Inl (Error ''Invalid date format. Use DD/MM/YYYY'')
      else
        let parts = map (toNumber rt) (splitSlash dateStr);
            day = numAt parts 0; month = numAt parts 1; year = numAt parts 2;
            date = setHours0 rt (newDate rt year (js_sub month (Fin 1)) day);
            today = newDate rt (getFullYear rt (now rt)) (getMonth rt (now rt))
                      (getDate rt (now rt))
        in Inr
          (if rangeName = ''today'' then js_eq date today
           else if rangeName = ''week'' then
             (let startOfWeek = setDate rt today (js_sub (getDate rt today) (getDay rt today));
                  endOfWeek = setDate rt startOfWeek (js_add (getDate rt startOfWeek) (Fin 6))
              in js_ge date startOfWeek \<and> js_le date endOfWeek)
           else if rangeName = ''month'' then
             (let startOfMonth = newDate rt (getFullYear rt today) (getMonth rt today) (Fin 1);
                  endOfMonth = newDate rt (getFullYear rt today)
                                 (js_add (getMonth rt today) (Fin 1)) (Fin 0)
              in js_ge date startOfMonth \<and> js_le date endOfMonth)
           else if rangeName = ''quarter'' then
             (let currentQuarter = floorThird (getMonth rt today);
                  startOfQuarter = newDate rt (getFullYear rt today)
                                     (js_mul currentQuarter (Fin 3)) (Fin 1);
                  endOfQuarter = newDate rt (getFullYear rt today)
                                   (js_mul (js_add currentQuarter (Fin 1)) (Fin 3)) (Fin 0)
              in js_ge date startOfQuarter \<and> js_le date endOfQuarter)
           else if rangeName = ''year'' then
             (let startOfYear = newDate rt (getFullYear rt today) (Fin 0) (Fin 1);
                  endOfYear = newDate rt (getFullYear rt today) (Fin 11) (Fin 31)
              in js_ge date startOfYear \<and> js_le date endOfYear)
           else True))"

text \<open>
  The three loops of the callback of \<open>applyFilters\<close>. Each runs through the entries of
  one filter object; \<open>False\<close> is the callback's \<open>return false\<close>, \<open>True\<close> means that
  the loop ran to its end. Only the first loop can throw.
\<close>

fun dateFiltersLoop :: "runtime \<Rightarrow> row_record \<Rightarrow> (nat \<times> string) list \<Rightarrow> error + bool" where
  "dateFiltersLoop rt rowData [] = Inr True"
| "dateFiltersLoop rt rowData ((colIndex, filterVal) # rest) =
     (if filterVal = [] then dateFiltersLoop rt rowData rest
      else (case isDateInRange rt (cellTextAt rowData colIndex) filterVal of
              Inl e \<Rightarrow> Inl e
            | Inr inRange \<Rightarrow>
                if \<not> inRange then Inr False else dateFiltersLoop rt rowData rest))"

text \<open>The truth value of \<open>range.from\<close> and \<open>range.to\<close>: \<open>null\<close> and the empty
  string are false. \<open>boundDate\<close> is \<open>new Date(bound)\<close> followed by
  \<open>setHours(0, 0, 0, 0)\<close>; it is called on true bounds only.\<close>

definition truthy :: "string option \<Rightarrow> bool" where
  "truthy v = (v \<noteq> None \<and> v \<noteq> Some [])"

definition boundDate :: "runtime \<Rightarrow> string option \<Rightarrow> rat jsnum" where
  "boundDate rt v =
     (case v of None \<Rightarrow> NaN | Some str \<Rightarrow> setHours0 rt (newDateString rt str))"

text \<open>The checks made for one active date range in the second loop: \<open>False\<close> is
  \<open>return false\<close>.\<close>

definition dateRangeTest :: "runtime \<Rightarrow> row_record \<Rightarrow> nat \<Rightarrow> date_range \<Rightarrow> bool" where
  "dateRangeTest rt rowData colIndex rng =
     (let cellVal = cellTextAt rowData colIndex in
      if \<not> matchesDatePattern cellVal then False
      else
        let cellDate = parseDate rt cellVal in
        if truthy (range_from rng) \<and> js_lt cellDate (boundDate rt (range_from rng)) then False
        else if truthy (range_to rng) \<and> js_gt cellDate (boundDate rt (range_to rng)) then False
        else True)"

fun dateRangeFiltersLoop :: "runtime \<Rightarrow> row_record \<Rightarrow> (nat \<times> date_range) list \<Rightarrow> bool" where
  "dateRangeFiltersLoop rt rowData [] = True"
| "dateRangeFiltersLoop rt rowData ((colIndex, rng) # rest) =
     (if \<not> truthy (range_from rng) \<and> \<not> truthy (range_to rng)
      then dateRangeFiltersLoop rt rowData rest
      else if \<not> dateRangeTest rt rowData colIndex rng then False
      else dateRangeFiltersLoop rt rowData rest)"

fun valueFiltersLoop :: "row_record \<Rightarrow> (nat \<times> string) list \<Rightarrow> bool" where
  "valueFiltersLoop rowData [] = True"
| "valueFiltersLoop rowData ((colIndex, filterVal) # rest) =
     (if filterVal = [] then valueFiltersLoop rowData rest
      else if cellTextAt rowData colIndex \<noteq> filterVal then False
      else valueFiltersLoop rowData rest)"

text \<open>The callback handed to \<open>this.rowsCache.filter\<close>.\<close>

definition filterCallback :: "runtime \<Rightarrow> state \<Rightarrow> row_record \<Rightarrow> error + bool" where
  "filterCallback rt s rowData =
     (case dateFiltersLoop rt rowData (currentDateFilters s) of
        Inl e \<Rightarrow> Inl e
      | Inr goOn \<Rightarrow>
          if \<not> goOn then Inr False
          else if \<not> dateRangeFiltersLoop rt rowData (currentDateRangeFilters s) then Inr False
          else Inr (valueFiltersLoop rowData (currentValueFilters s)))"

text \<open>\<open>Array.prototype.filter\<close> with a callback that may throw: the rows are visited in
  order and the first exception ends the call.\<close>

fun jsFilter :: "('a \<Rightarrow> error + bool) \<Rightarrow> 'a list \<Rightarrow> error + 'a list" where
  "jsFilter p [] = Inr []"
| "jsFilter p (x # xs) =
     (case p x of
        Inl e \<Rightarrow> Inl e
      | Inr keep \<Rightarrow>
          (case jsFilter p xs of
             Inl e \<Rightarrow> Inl e
           | Inr out \<Rightarrow> Inr (if keep then x # out else out)))"

definition applyFilters :: "runtime \<Rightarrow> state \<Rightarrow> error + state" where
  "applyFilters rt s =
     (case jsFilter (filterCallback rt s) (rowsCache s) of
        Inl e \<Rightarrow> Inl e
      | Inr rows \<Rightarrow> Inr (s\<lparr>filteredRows := rows\<rparr>))"

section \<open>Reconciler\<close>

fun setAttribute :: "string \<Rightarrow> string \<Rightarrow> (string \<times> string) list \<Rightarrow> (string \<times> string) list" where
  "setAttribute name v [] = [(name, v)]"
| "setAttribute name v ((n, w) # rest) =
     (if n = name then (n, v) # rest else (n, w) # setAttribute name v rest)"

definition removeAttribute :: "string \<Rightarrow> (string \<times> string) list \<Rightarrow> (string \<times> string) list" where
  "removeAttribute name attrs = filter (\<lambda>(n, w). n \<noteq> name) attrs"

text \<open>The patch of one cell of a reused row element (the body of the loop over \<open>j\<close> in
  \<open>updateTable\<close>).\<close>

definition patchCell :: "surface_cell \<Rightarrow> cell_snapshot \<Rightarrow> surface_cell" where
  "patchCell td snap =
     (let titled = (if title snap \<noteq> [] then setAttribute ''title'' (title snap) (sc_attributes td)
                    else removeAttribute ''title'' (sc_attributes td))
      in \<lparr>sc_innerHTML = innerHTML snap,
          sc_attributes =
            foldl (\<lambda>attrs (attrName, attrValue).
                     if attrName \<noteq> ''innerHTML'' then setAttribute attrName attrValue attrs
                     else attrs)
              titled (attributes snap)\<rparr>)"

text \<open>The loop over \<open>j < rowData.cells.length\<close>, which skips the indices at which the
  row element has no cell.\<close>

fun patchCells :: "surface_cell list \<Rightarrow> cell_snapshot list \<Rightarrow> surface_cell list" where
  "patchCells (td # tds) (snap # snaps) = patchCell td snap # patchCells tds snaps"
| "patchCells tds [] = tds"
| "patchCells [] snaps = []"

text \<open>\<open>xs[i]\<close> for a number \<open>i\<close>: \<open>None\<close> is \<open>undefined\<close>.\<close>

fun js_index :: "'a list \<Rightarrow> int jsnum \<Rightarrow> 'a option" where
  "js_index xs (Fin k) = (if 0 \<le> k \<and> k < int (length xs) then Some (xs ! nat k) else None)"
| "js_index xs _ = None"

text \<open>
  The loop \<open>for (let i = minIndex; i < maxIndex; i++)\<close> of \<open>updateTable\<close>, on the
  pool, the children of the body and the number of row elements created. Reading a
  property of an undefined \<open>rowData\<close> throws; a row element popped from the pool just
  before is then in neither list.
\<close>

function renderRows ::
  "row_record list \<Rightarrow> int jsnum \<Rightarrow> int jsnum \<Rightarrow> surface list \<times> surface list \<times> nat \<Rightarrow>
     (surface list \<times> surface list \<times> nat) \<times> error option" where
  "renderRows frows i maxIndex (pool, body, n) =
     (if js_lt i maxIndex then
        (case js_index frows i of
           None \<Rightarrow>
             ((if pool \<noteq> [] then butlast pool else pool, body, n),
              Some (TypeError ''rowData is undefined''))
         | Some rowData \<Rightarrow>
             (if pool \<noteq> [] then
                renderRows frows (js_add i (Fin 1)) maxIndex
                  (butlast pool,
                   body @ [\<lparr>data_original_index = Some (originalIndex rowData),
                            s_cells = patchCells (s_cells (last pool)) (cells rowData)\<rparr>],
                   n)
              else
                renderRows frows (js_add i (Fin 1)) maxIndex
                  (pool,
                   body @ [(element rowData)\<lparr>data_original_index := Some (originalIndex rowData)\<rparr>],
                   Suc n)))
      else ((pool, body, n), None))"
  by pat_completeness auto
termination
proof (relation "measure (\<lambda>(frows, i, maxIndex, st).
                   (case i of Fin k \<Rightarrow> length frows - nat k | _ \<Rightarrow> 0))", goal_cases)
  case 1
  show ?case by simp
next
  case (2 frows i maxIndex pool body n rowData)
  then show ?case by (cases i) (auto split: if_splits)
next
  case (3 frows i maxIndex pool body n rowData)
  then show ?case by (cases i) (auto split: if_splits)
qed

declare renderRows.simps [simp del]

section \<open>View controller\<close>

text \<open>The first step of \<open>updateTable\<close>: the rows are sorted again if a sort is
  active.\<close>

definition sortStep :: "runtime \<Rightarrow> state \<Rightarrow> state" where
  "sortStep rt s =
     (case (column (currentSort s), direction (currentSort s)) of
        (Some c, Some d) \<Rightarrow> sortRows rt c d s
      | _ \<Rightarrow> s)"

text \<open>
  The steps of \<open>updateTable\<close> after the filters have been applied. \<open>totalPagesOf\<close>,
  \<open>minIndexOf\<close> and \<open>maxIndexOf\<close> are its constants \<open>totalPages\<close>, \<open>minIndex\<close>
  and \<open>maxIndex\<close>; \<open>clampPage\<close> is the reset of the page index, and \<open>reconcile\<close>
  is the rest: the children of the body go to the pool, the rows of the page are rendered,
  and the summary is written.
\<close>

definition totalPagesOf :: "state \<Rightarrow> int jsnum" where
  "totalPagesOf s = js_ceil_div (length (filteredRows s)) (displayLimit s)"

definition clampPage :: "state \<Rightarrow> state" where
  "clampPage s =
     (if js_gt (currentPageIndex s) (totalPagesOf s) then s\<lparr>currentPageIndex := Fin 1\<rparr> else s)"

definition minIndexOf :: "state \<Rightarrow> int jsnum" where
  "minIndexOf s = js_mul (displayLimit s) (js_sub (currentPageIndex s) (Fin 1))"

definition maxIndexOf :: "state \<Rightarrow> int jsnum" where
  "maxIndexOf s =
     js_min (js_mul (displayLimit s) (currentPageIndex s)) (Fin (int (length (filteredRows s))))"

definition reconcile :: "state \<Rightarrow> state \<times> error option" where
  "reconcile s =
     (case renderRows (filteredRows s) (minIndexOf s) (maxIndexOf s)
             (rowPool s @ tbody s, [], allocated s) of
        ((pool, body, n), thrown) \<Rightarrow>
          (let s4 = s\<lparr>rowPool := pool, tbody := body, allocated := n\<rparr> in
           case thrown of
             Some e \<Rightarrow> (s4, Some e)
           | None \<Rightarrow>
               if \<not> hasTableInfo s4 then (s4, Some (TypeError ''tableInfo is null''))
               else (s4\<lparr>tableInfo :=
                          Some (js_sub (maxIndexOf s) (minIndexOf s), length (filteredRows s4),
                                length (rowsCache s4))\<rparr>, None)))"

definition updateTable :: "runtime \<Rightarrow> state \<Rightarrow> state \<times> error option" where
  "updateTable rt s =
     (case applyFilters rt (sortStep rt s) of
        Inl e \<Rightarrow> (sortStep rt s, Some e)
      | Inr s2 \<Rightarrow> reconcile (clampPage s2))"

text \<open>
  \<open>handleSort\<close> has two branches, with and without a sort button for the column. They
  differ in the classes they set on the buttons and in nothing else; the buttons are not
  part of the state kept here, so the branches coincide.
\<close>

definition handleSort :: "runtime \<Rightarrow> nat \<Rightarrow> state \<Rightarrow> state \<times> error option" where
  "handleSort rt columnIndex s =
     (let dir = (if column (currentSort s) = Some columnIndex then
                   (if direction (currentSort s) = Some Asc then Some Desc
                    else if direction (currentSort s) = Some Desc then None
                    else Some Asc)
                 else Some Asc);
          s1 = s\<lparr>currentSort :=
                   \<lparr>column = (if dir \<noteq> None then Some columnIndex else None),
                    direction = dir\<rparr>\<rparr>;
          s2 = (if dir = None then s1\<lparr>rowsCache := sortByOriginalIndex (rowsCache s1)\<rparr> else s1)
      in updateTable rt s2)"

section \<open>Construction\<close>

text \<open>
  What the constructor reads from its argument: the table of the container, if any, with
  the rows of its body (\<open>None\<close> if the table has no body element) and the number of
  header cells in the last header row, and whether the container has a \<open>.tableInfo\<close>
  element. The filter, paging and sort controls that the constructor creates outside a
  test environment, and the teardown of a manager already bound to the container, touch
  none of this.
\<close>

record dom_table =
  body_rows :: "dom_cell list list option"
  header_cells :: nat

record container =
  container_table :: "dom_table option"
  container_tableInfo :: bool

definition getTextContent :: "dom_cell option \<Rightarrow> string" where
  "getTextContent el =
     (case el of
        None \<Rightarrow> []
      | Some c \<Rightarrow>
          if truthy (dom_textContent c) then (case dom_textContent c of Some t \<Rightarrow> t | None \<Rightarrow> [])
          else if truthy (dom_innerText c) then (case dom_innerText c of Some t \<Rightarrow> t | None \<Rightarrow> [])
          else [])"

definition getElementAttributes :: "dom_cell \<Rightarrow> (string \<times> string) list" where
  "getElementAttributes c = filter (\<lambda>(name, v). name \<noteq> ''style'') (dom_attributes c)"

definition snapshotCell :: "dom_cell \<Rightarrow> cell_snapshot" where
  "snapshotCell c =
     \<lparr>innerHTML = dom_innerHTML c,
      textContent = js_trim (getTextContent (Some c)),
      title = (case map_of (dom_attributes c) ''title'' of Some t \<Rightarrow> t | None \<Rightarrow> []),
      attributes = getElementAttributes c\<rparr>"

text \<open>\<open>row.cloneNode(true)\<close> of a body row that carries \<open>data-original-index = index\<close>.\<close>

definition cloneRow :: "nat \<Rightarrow> dom_cell list \<Rightarrow> surface" where
  "cloneRow index row =
     \<lparr>data_original_index = Some index,
      s_cells = map (\<lambda>c. \<lparr>sc_innerHTML = dom_innerHTML c, sc_attributes = dom_attributes c\<rparr>) row\<rparr>"

definition buildRowsCache :: "dom_cell list list \<Rightarrow> row_record list" where
  "buildRowsCache allRows =
     map (\<lambda>(index, row).
            \<lparr>originalIndex = index, element = cloneRow index row, cells = map snapshotCell row\<rparr>)
         (enumerate 0 allRows)"

text \<open>The test made on a cell by the loop that looks for a date column.\<close>

definition isDateCell :: "row_record \<Rightarrow> nat \<Rightarrow> bool" where
  "isDateCell rowData colIndex =
     (colIndex < length (cells rowData) \<and>
      (let cellVal = js_trim (stripTags (textContent (cells rowData ! colIndex)))
       in cellVal \<noteq> [] \<and> matchesDatePattern cellVal))"

text \<open>The sort state after the two nested loops of the constructor.\<close>

definition initialSort :: "row_record list \<Rightarrow> nat \<Rightarrow> sort_state" where
  "initialSort rc headerCount =
     (case find (\<lambda>colIndex. list_ex (\<lambda>rowData. isDateCell rowData colIndex) rc) [2..<headerCount] of
        None \<Rightarrow> \<lparr>column = None, direction = None\<rparr>
      | Some colIndex \<Rightarrow> \<lparr>column = Some colIndex, direction = Some Desc\<rparr>)"

text \<open>The fields as the constructor has set them when it calls \<open>updateTable\<close>.\<close>

definition initialState :: "container \<Rightarrow> dom_table \<Rightarrow> dom_cell list list \<Rightarrow> state" where
  "initialState c t allRows =
     (let rc = buildRowsCache allRows in
      \<lparr>displayLimit = Fin 25, currentPageIndex = Fin 1,
       rowsCache = rc, filteredRows = rc, rowPool = [], tbody = [],
       currentDateFilters = [], currentValueFilters = [], currentDateRangeFilters = [],
       currentSort = initialSort rc (header_cells t),
       hasTableInfo = container_tableInfo c, tableInfo = None,
       allocated = 0\<rparr>)"

definition LiteTableManager :: "runtime \<Rightarrow> container option \<Rightarrow> error + state" where
  "LiteTableManager rt tableContainer =
     (case tableContainer of
        None \<Rightarrow> Inl (Error ''Table container is required'')
      | Some c \<Rightarrow>
         (case container_table c of
            None \<Rightarrow> Inl (Error ''No table found in container'')
          | Some t \<Rightarrow>
             (case body_rows t of
                None \<Rightarrow> Inl (TypeError ''tbody is null'')
              | Some allRows \<Rightarrow>
                 (case updateTable rt (initialState c t allRows) of
                    (s, None) \<Rightarrow> Inr s
                  | (s, Some e) \<Rightarrow> Inl e))))"

section \<open>Operations on a manager\<close>

text \<open>\<open>obj[colIndex] = v\<close> on a filter object: the entries stay in ascending order of
  the column index.\<close>

fun setEntry :: "nat \<Rightarrow> 'v \<Rightarrow> (nat \<times> 'v) list \<Rightarrow> (nat \<times> 'v) list" where
  "setEntry k v [] = [(k, v)]"
| "setEntry k v ((k', v') # rest) =
     (if k = k' then (k, v) # rest
      else if k < k' then (k, v) # (k', v') # rest
      else (k', v') # setEntry k v rest)"

text \<open>
  The entry points that change a manager: the listeners installed by
  \<open>initDisplayLimit\<close>, \<open>updatePagination\<close>, \<open>createDateRangeDropdown\<close>,
  \<open>createDateDropdown\<close>, \<open>createValueDropdown\<close> and \<open>initColumnsFilters\<close>, and the
  methods \<open>sortRows\<close> and \<open>updateTable\<close> called directly. An exception leaves a
  listener, and the manager stays as it was at that moment.
\<close>

datatype operation =
    SetDisplayLimit "int jsnum"
  | GoToPage "int jsnum"
  | SetDateRangeFilter nat date_range
  | SetDateFilter nat string
  | SetValueFilter nat string
  | HandleSort nat
  | SortRows nat sort_dir
  | UpdateTable

fun perform :: "runtime \<Rightarrow> operation \<Rightarrow> state \<Rightarrow> state \<times> error option" where
  "perform rt (SetDisplayLimit v) s = updateTable rt (s\<lparr>displayLimit := v\<rparr>)"
| "perform rt (GoToPage pageIndex) s = updateTable rt (s\<lparr>currentPageIndex := pageIndex\<rparr>)"
| "perform rt (SetDateRangeFilter colIndex rng) s =
     updateTable rt (s\<lparr>currentDateRangeFilters := setEntry colIndex rng (currentDateRangeFilters s)\<rparr>)"
| "perform rt (SetDateFilter colIndex filterVal) s =
     updateTable rt (s\<lparr>currentDateFilters := setEntry colIndex filterVal (currentDateFilters s)\<rparr>)"
| "perform rt (SetValueFilter colIndex filterVal) s =
     updateTable rt (s\<lparr>currentValueFilters := setEntry colIndex filterVal (currentValueFilters s)\<rparr>)"
| "perform rt (HandleSort columnIndex) s = handleSort rt columnIndex s"
| "perform rt (SortRows columnIndex dir) s = (sortRows rt columnIndex dir s, None)"
| "perform rt UpdateTable s = updateTable rt s"

fun run :: "runtime \<Rightarrow> operation list \<Rightarrow> state \<Rightarrow> state" where
  "run rt [] s = s"
| "run rt (op # ops) s = run rt ops (fst (perform rt op s))"

text \<open>The state and the exception, if any, after each operation of a list.\<close>

fun outcomes :: "runtime \<Rightarrow> operation list \<Rightarrow> state \<Rightarrow> (state \<times> error option) list" where
  "outcomes rt [] s = []"
| "outcomes rt (op # ops) s = perform rt op s # outcomes rt ops (fst (perform rt op s))"

section \<open>A runtime for examples\<close>

text \<open>
  A small runtime on which the definitions above can be run: numbers are plain decimal
  literals with an optional sign, strings are compared by code unit without regard to the
  case of ASCII letters, and dates are days of the proleptic Gregorian calendar in UTC,
  with the clock standing at 15 April 2025, 10:30. The properties below are proved for
  every runtime; this one only serves to evaluate them on concrete tables.
\<close>

definition digitsValue :: "string \<Rightarrow> nat" where
  "digitsValue ds = foldl (\<lambda>n c. 10 * n + (of_char c - 48)) 0 ds"

definition decimalPrefix :: "string \<Rightarrow> rat option" where
  "decimalPrefix s =
     (let ip = takeWhile is_digit s;
          fp = (case dropWhile is_digit s of
                  [] \<Rightarrow> []
                | c # r \<Rightarrow> if c = CHR ''.'' then takeWhile is_digit r else [])
      in if ip = [] \<and> fp = [] then None
         else Some (of_nat (digitsValue ip) + of_nat (digitsValue fp) / 10 ^ length fp))"

definition decimalPrefixLength :: "string \<Rightarrow> nat" where
  "decimalPrefixLength s =
     (let ip = takeWhile is_digit s in
      case dropWhile is_digit s of
        [] \<Rightarrow> length ip
      | c # r \<Rightarrow> if c = CHR ''.'' \<and> (ip \<noteq> [] \<or> takeWhile is_digit r \<noteq> [])
                then length ip + 1 + length (takeWhile is_digit r) else length ip)"

definition signedPrefix :: "string \<Rightarrow> rat jsnum" where
  "signedPrefix s =
     (case s of
        [] \<Rightarrow> NaN
      | c # r \<Rightarrow>
          if c = CHR ''-'' then (case decimalPrefix r of None \<Rightarrow> NaN | Some q \<Rightarrow> Fin (- q))
          else if c = CHR ''+'' then (case decimalPrefix r of None \<Rightarrow> NaN | Some q \<Rightarrow> Fin q)
          else (case decimalPrefix s of None \<Rightarrow> NaN | Some q \<Rightarrow> Fin q))"

definition unsignedPart :: "string \<Rightarrow> string" where
  "unsignedPart s = (case s of [] \<Rightarrow> [] | c # r \<Rightarrow> if c = CHR ''-'' \<or> c = CHR ''+'' then r else s)"

definition sample_parseFloat :: "string \<Rightarrow> rat jsnum" where
  "sample_parseFloat s = signedPrefix (dropWhile is_space s)"

definition sample_toNumber :: "string \<Rightarrow> rat jsnum" where
  "sample_toNumber s =
     (let t = js_trim s in
      if t = [] then Fin 0
      else if decimalPrefixLength (unsignedPart t) = length (unsignedPart t) then signedPrefix t
      else NaN)"

definition lowerChar :: "char \<Rightarrow> nat" where
  "lowerChar c = (let n = of_char c in if 65 \<le> n \<and> n \<le> 90 then n + 32 else n)"

fun compareUnits :: "nat list \<Rightarrow> nat list \<Rightarrow> int" where
  "compareUnits [] [] = 0"
| "compareUnits [] (y # ys) = - 1"
| "compareUnits (x # xs) [] = 1"
| "compareUnits (x # xs) (y # ys) = (if x < y then - 1 else if y < x then 1 else compareUnits xs ys)"

definition sample_localeCompare :: "string \<Rightarrow> string \<Rightarrow> int" where
  "sample_localeCompare a b = compareUnits (map lowerChar a) (map lowerChar b)"

definition daysFromCivil :: "int \<Rightarrow> int \<Rightarrow> int \<Rightarrow> int" where
  "daysFromCivil y m d =
     (let y' = (if m \<le> 2 then y - 1 else y);
          era = y' div 400;
          yoe = y' - era * 400;
          doy = (153 * (if m > 2 then m - 3 else m + 9) + 2) div 5 + d - 1;
          doe = yoe * 365 + yoe div 4 - yoe div 100 + doy
      in era * 146097 + doe - 719468)"

definition civilFromDays :: "int \<Rightarrow> int \<times> int \<times> int" where
  "civilFromDays z0 =
     (let z = z0 + 719468;
          era = z div 146097;
          doe = z - era * 146097;
          yoe = (doe - doe div 1460 + doe div 36524 - doe div 146096) div 365;
          doy = doe - (365 * yoe + yoe div 4 - yoe div 100);
          mp = (5 * doy + 2) div 153;
          d = doy - (153 * mp + 2) div 5 + 1;
          m = (if mp < 10 then mp + 3 else mp - 9)
      in (yoe + era * 400 + (if m \<le> 2 then 1 else 0), m, d))"

definition msPerDay :: int where
  "msPerDay = 86400000"

fun dayOf :: "rat jsnum \<Rightarrow> int option" where
  "dayOf (Fin t) = Some (\<lfloor>t\<rfloor> div msPerDay)"
| "dayOf _ = None"

fun truncated :: "rat jsnum \<Rightarrow> int option" where
  "truncated (Fin q) = Some (if q < 0 then \<lceil>q\<rceil> else \<lfloor>q\<rfloor>)"
| "truncated _ = None"

definition sample_newDate :: "rat jsnum \<Rightarrow> rat jsnum \<Rightarrow> rat jsnum \<Rightarrow> rat jsnum" where
  "sample_newDate year monthIndex day =
     (case (truncated year, truncated monthIndex, truncated day) of
        (Some y, Some m, Some d) \<Rightarrow>
          (let y' = (if 0 \<le> y \<and> y \<le> 99 then 1900 + y else y);
               months = y' * 12 + m
           in Fin (of_int ((daysFromCivil (months div 12) (months mod 12 + 1) 1 + d - 1) * msPerDay)))
      | _ \<Rightarrow> NaN)"

definition civilField :: "(int \<times> int \<times> int \<Rightarrow> int) \<Rightarrow> rat jsnum \<Rightarrow> rat jsnum" where
  "civilField sel t = (case dayOf t of None \<Rightarrow> NaN | Some z \<Rightarrow> Fin (of_int (sel (civilFromDays z))))"

definition sample_setHours0 :: "rat jsnum \<Rightarrow> rat jsnum" where
  "sample_setHours0 t = (case dayOf t of None \<Rightarrow> NaN | Some z \<Rightarrow> Fin (of_int (z * msPerDay)))"

definition sample_getDay :: "rat jsnum \<Rightarrow> rat jsnum" where
  "sample_getDay t = (case dayOf t of None \<Rightarrow> NaN | Some z \<Rightarrow> Fin (of_int ((z + 4) mod 7)))"

definition sample_setDate :: "rat jsnum \<Rightarrow> rat jsnum \<Rightarrow> rat jsnum" where
  "sample_setDate t n =
     (case t of
        Fin q \<Rightarrow>
          js_add (sample_newDate (civilField fst t) (js_sub (civilField (fst \<circ> snd) t) (Fin 1)) n)
            (Fin (q - of_int ((\<lfloor>q\<rfloor> div msPerDay) * msPerDay)))
      | _ \<Rightarrow> NaN)"

definition sample_newDateString :: "string \<Rightarrow> rat jsnum" where
  "sample_newDateString s =
     (case s of
        [y1, y2, y3, y4, h1, m1, m2, h2, d1, d2] \<Rightarrow>
          if list_all is_digit [y1, y2, y3, y4, m1, m2, d1, d2] \<and> h1 = CHR ''-'' \<and> h2 = CHR ''-''
             \<and> 1 \<le> digitsValue [m1, m2] \<and> digitsValue [m1, m2] \<le> 12
             \<and> 1 \<le> digitsValue [d1, d2] \<and> digitsValue [d1, d2] \<le> 31
          then Fin (of_int (daysFromCivil (int (digitsValue [y1, y2, y3, y4]))
                             (int (digitsValue [m1, m2])) (int (digitsValue [d1, d2])) * msPerDay))
          else NaN
      | _ \<Rightarrow> NaN)"

definition sample_runtime :: runtime where
  "sample_runtime =
     \<lparr>toNumber = sample_toNumber,
      parseFloat = sample_parseFloat,
      localeCompare = sample_localeCompare,
      newDate = sample_newDate,
      newDateString = sample_newDateString,
      now = Fin (of_int (daysFromCivil 2025 4 15 * msPerDay + 37800000)),
      setHours0 = sample_setHours0,
      getFullYear = civilField fst,
      getMonth = (\<lambda>t. js_sub (civilField (fst \<circ> snd) t) (Fin 1)),
      getDate = civilField (snd \<circ> snd),
      getDay = sample_getDay,
      setDate = sample_setDate\<rparr>"

section \<open>Example tables\<close>

text \<open>A body cell that holds plain text and has no attributes.\<close>

definition td :: "string \<Rightarrow> dom_cell" where
  "td txt = \<lparr>dom_innerHTML = txt, dom_textContent = Some txt, dom_innerText = Some txt,
             dom_attributes = []\<rparr>"

text \<open>Three rows of the table used by the tests of the repository.\<close>

definition example_rows :: "dom_cell list list" where
  "example_rows =
     [[td ''1'', td ''Active'', td ''15/04/2025'', td ''100''],
      [td ''2'', td ''Inactive'', td ''20/03/2025'', td ''250''],
      [td ''3'', td ''Pending'', td ''05/05/2025'', td ''75,5'']]"

definition example_table :: dom_table where
  "example_table = \<lparr>body_rows = Some example_rows, header_cells = 4\<rparr>"

definition example_container :: container where
  "example_container = \<lparr>container_table = Some example_table, container_tableInfo = True\<rparr>"

text \<open>The manager that the constructor returns for the example.\<close>

definition example_state :: state where
  "example_state =
     fst (updateTable sample_runtime (initialState example_container example_table example_rows))"

text \<open>The manager of the example with a stale page index.\<close>

definition example_stale_page :: state where
  "example_stale_page =
     (initialState example_container example_table example_rows)\<lparr>currentPageIndex := Fin 3\<rparr>"

text \<open>A cached row with the given texts in its cells, as \<open>buildRowsCache\<close> makes it from
  cells of plain text, and a manager with the given row cache and nothing else set.\<close>

definition rowOf :: "nat \<Rightarrow> string list \<Rightarrow> row_record" where
  "rowOf i txts =
     \<lparr>originalIndex = i,
      element = \<lparr>data_original_index = Some i,
                 s_cells = map (\<lambda>t. \<lparr>sc_innerHTML = t, sc_attributes = []\<rparr>) txts\<rparr>,
      cells = map (\<lambda>t. \<lparr>innerHTML = t, textContent = t, title = [], attributes = []\<rparr>) txts\<rparr>"

definition managerOf :: "row_record list \<Rightarrow> state" where
  "managerOf rc =
     \<lparr>displayLimit = Fin 25, currentPageIndex = Fin 1,
      rowsCache = rc, filteredRows = rc, rowPool = [], tbody = [],
      currentDateFilters = [], currentValueFilters = [], currentDateRangeFilters = [],
      currentSort = \<lparr>column = None, direction = None\<rparr>,
      hasTableInfo = True, tableInfo = None, allocated = 0\<rparr>"









text \<open>Three rows with a status and a date, the first date malformed.\<close>

definition example_dated :: "row_record list" where
  "example_dated =
     [rowOf 0 [''Active'', ''n/a''],
      rowOf 1 [''Inactive'', ''15/04/2025''],
      rowOf 2 [''Active'', ''16/04/2025'']]"

section \<open>Notions used by the properties\<close>

text \<open>The rows of the body that the constructor reads, none if it fails before.\<close>

definition sourceRows :: "container option \<Rightarrow> dom_cell list list" where
  "sourceRows tableContainer =
     (case tableContainer of
        None \<Rightarrow> []
      | Some c \<Rightarrow> (case container_table c of
                     None \<Rightarrow> []
                   | Some t \<Rightarrow> (case body_rows t of None \<Rightarrow> [] | Some allRows \<Rightarrow> allRows)))"

text \<open>The elements that satisfy \<open>P\<close> form a block at the end of the list.\<close>

fun endBlock :: "('a \<Rightarrow> bool) \<Rightarrow> 'a list \<Rightarrow> bool" where
  "endBlock P [] = True"
| "endBlock P (x # xs) = (if P x then list_all P xs else endBlock P xs)"

text \<open>
  The inference of the column type in the words of the specification: the sample is the
  text of the first row whose cell in the column is not empty.
\<close>

definition spec_columnTypeOf :: "runtime \<Rightarrow> row_record list \<Rightarrow> nat \<Rightarrow> column_type" where
  "spec_columnTypeOf rt rc columnIndex =
     (case find (\<lambda>r. cellTextAt r columnIndex \<noteq> []) rc of
        None \<Rightarrow> ColText
      | Some r \<Rightarrow>
          if matchesDatePattern (cellTextAt r columnIndex) then ColDate
          else if \<not> is_NaN (toNumber rt (replaceComma (cellTextAt r columnIndex))) then ColNumber
          else ColText)"



text \<open>
  The filter predicate in the words of the specification: a row passes if it passes every
  active filter. A categorical filter is active when its value is not empty, and asks for
  the text of the cell to be that value; a bucketed-date filter is active when its value is
  not empty, and asks for \<open>isDateInRange\<close> to return true; a date-range filter is active
  when one of its bounds is set.
\<close>

definition spec_passesFilters :: "runtime \<Rightarrow> state \<Rightarrow> row_record \<Rightarrow> bool" where
  "spec_passesFilters rt s r =
     ((\<forall>(c, v) \<in> set (currentValueFilters s). v \<noteq> [] \<longrightarrow> cellTextAt r c = v) \<and>
      (\<forall>(c, v) \<in> set (currentDateFilters s).
          v \<noteq> [] \<longrightarrow> isDateInRange rt (cellTextAt r c) v = Inr True) \<and>
      (\<forall>(c, rng) \<in> set (currentDateRangeFilters s).
          truthy (range_from rng) \<or> truthy (range_to rng) \<longrightarrow> dateRangeTest rt r c rng))"

section \<open>Properties\<close>

subsection \<open>Sorting keeps the rows\<close>

lemma mset_js_insert: "mset (js_insert cmp x ys) = add_mset x (mset ys)"
  by (induction ys) auto

lemma mset_js_sort: "mset (js_sort cmp xs) = mset xs"
  by (induction xs) (auto simp: js_sort_def mset_js_insert)

lemma sortRows_fields:
  "mset (rowsCache (sortRows rt c d s)) = mset (rowsCache s)"
  "currentSort (sortRows rt c d s) = currentSort s"
  "rowPool (sortRows rt c d s) = rowPool s"
  "tbody (sortRows rt c d s) = tbody s"
  "allocated (sortRows rt c d s) = allocated s"
  "displayLimit (sortRows rt c d s) = displayLimit s"
  "currentPageIndex (sortRows rt c d s) = currentPageIndex s"
  "hasTableInfo (sortRows rt c d s) = hasTableInfo s"
  "currentDateFilters (sortRows rt c d s) = currentDateFilters s"
  "currentValueFilters (sortRows rt c d s) = currentValueFilters s"
  "currentDateRangeFilters (sortRows rt c d s) = currentDateRangeFilters s"
  by (simp_all add: sortRows_def Let_def mset_js_sort)

lemma sortStep_fields:
  "mset (rowsCache (sortStep rt s)) = mset (rowsCache s)"
  "currentSort (sortStep rt s) = currentSort s"
  "rowPool (sortStep rt s) = rowPool s"
  "tbody (sortStep rt s) = tbody s"
  "allocated (sortStep rt s) = allocated s"
  "displayLimit (sortStep rt s) = displayLimit s"
  "currentPageIndex (sortStep rt s) = currentPageIndex s"
  "hasTableInfo (sortStep rt s) = hasTableInfo s"
  "currentDateFilters (sortStep rt s) = currentDateFilters s"
  "currentValueFilters (sortStep rt s) = currentValueFilters s"
  "currentDateRangeFilters (sortStep rt s) = currentDateRangeFilters s"
  by (simp_all add: sortStep_def sortRows_fields split: option.splits)

lemma sortStep_inactive: "column (currentSort s) = None \<Longrightarrow> sortStep rt s = s"
  by (simp add: sortStep_def)

lemma applyFilters_Inr:
  "applyFilters rt s = Inr s2 \<Longrightarrow>
     \<exists>rows. jsFilter (filterCallback rt s) (rowsCache s) = Inr rows \<and> s2 = s\<lparr>filteredRows := rows\<rparr>"
  by (auto simp: applyFilters_def split: sum.splits)

lemma clampPage_fields:
  "rowsCache (clampPage s) = rowsCache s"
  "filteredRows (clampPage s) = filteredRows s"
  "currentSort (clampPage s) = currentSort s"
  "rowPool (clampPage s) = rowPool s"
  "tbody (clampPage s) = tbody s"
  "allocated (clampPage s) = allocated s"
  "displayLimit (clampPage s) = displayLimit s"
  "hasTableInfo (clampPage s) = hasTableInfo s"
  "currentDateFilters (clampPage s) = currentDateFilters s"
  "currentValueFilters (clampPage s) = currentValueFilters s"
  "currentDateRangeFilters (clampPage s) = currentDateRangeFilters s"
  by (simp_all add: clampPage_def)

lemma reconcile_fields:
  "rowsCache (fst (reconcile s)) = rowsCache s"
  "filteredRows (fst (reconcile s)) = filteredRows s"
  "currentSort (fst (reconcile s)) = currentSort s"
  "displayLimit (fst (reconcile s)) = displayLimit s"
  "currentPageIndex (fst (reconcile s)) = currentPageIndex s"
  "hasTableInfo (fst (reconcile s)) = hasTableInfo s"
  "currentDateFilters (fst (reconcile s)) = currentDateFilters s"
  "currentValueFilters (fst (reconcile s)) = currentValueFilters s"
  "currentDateRangeFilters (fst (reconcile s)) = currentDateRangeFilters s"
  by (simp_all add: reconcile_def Let_def split: prod.split option.split)

lemma updateTable_fields:
  "mset (rowsCache (fst (updateTable rt s))) = mset (rowsCache s)"
  "rowsCache (fst (updateTable rt s)) = rowsCache (sortStep rt s)"
  "currentSort (fst (updateTable rt s)) = currentSort s"
  "displayLimit (fst (updateTable rt s)) = displayLimit s"
  "hasTableInfo (fst (updateTable rt s)) = hasTableInfo s"
  "currentDateFilters (fst (updateTable rt s)) = currentDateFilters s"
  "currentValueFilters (fst (updateTable rt s)) = currentValueFilters s"
  "currentDateRangeFilters (fst (updateTable rt s)) = currentDateRangeFilters s"
  by (auto simp: updateTable_def reconcile_fields clampPage_fields sortStep_fields
           split: sum.split dest!: applyFilters_Inr)

lemma mset_sortByOriginalIndex: "mset (sortByOriginalIndex rc) = mset rc"
  by (simp add: sortByOriginalIndex_def mset_js_sort)

lemma handleSort_mset: "mset (rowsCache (fst (handleSort rt c s))) = mset (rowsCache s)"
  by (simp add: handleSort_def Let_def updateTable_fields(1) mset_sortByOriginalIndex)

lemma perform_mset: "mset (rowsCache (fst (perform rt op s))) = mset (rowsCache s)"
  by (cases op) (simp_all add: updateTable_fields(1) handleSort_mset sortRows_fields(1))

lemma run_mset: "mset (rowsCache (run rt ops s)) = mset (rowsCache s)"
  by (induction ops arbitrary: s) (simp_all add: perform_mset)

lemma buildRowsCache_index: "map originalIndex (buildRowsCache allRows) = [0..<length allRows]"
proof -
  have "map originalIndex (buildRowsCache allRows) = map fst (enumerate 0 allRows)"
    by (simp add: buildRowsCache_def case_prod_unfold comp_def)
  then show ?thesis by (simp add: map_fst_enumerate)
qed

lemma constructor_Inr:
  assumes "LiteTableManager rt tableContainer = Inr s0"
  shows "\<exists>c t allRows. tableContainer = Some c \<and> container_table c = Some t \<and>
           body_rows t = Some allRows \<and> updateTable rt (initialState c t allRows) = (s0, None)"
  using assms
  by (simp add: LiteTableManager_def split: option.splits prod.splits)

lemma constructor_rowsCache:
  assumes "LiteTableManager rt tableContainer = Inr s0"
  shows "mset (rowsCache s0) = mset (buildRowsCache (sourceRows tableContainer))"
proof -
  from constructor_Inr[OF assms] obtain c t allRows where
    tc: "tableContainer = Some c" "container_table c = Some t" "body_rows t = Some allRows"
    and upd: "updateTable rt (initialState c t allRows) = (s0, None)"
    by blast
  have "mset (rowsCache (fst (updateTable rt (initialState c t allRows)))) =
        mset (rowsCache (initialState c t allRows))"
    by (rule updateTable_fields(1))
  with upd tc show ?thesis by (simp add: sourceRows_def initialState_def Let_def)
qed

subsection \<open>The render loop on a range of valid indices\<close>

lemma renderRows_range:
  assumes "b \<le> length frows"
  shows "\<exists>new. renderRows frows (Fin (int a)) (Fin (int b)) (pool, body, n) =
               ((take (length pool - (b - a)) pool, body @ new, n + ((b - a) - length pool)), None) \<and>
             map data_original_index new = map (\<lambda>i. Some (originalIndex (frows ! i))) [a..<b]"
  using assms
proof (induction "b - a" arbitrary: a pool body n)
  case 0
  then have "\<not> js_lt (Fin (int a)) (Fin (int b))" by simp
  with 0 show ?case by (simp add: renderRows.simps)
next
  case (Suc k)
  then have lt: "a < b" and k: "k = b - Suc a" by simp_all
  with Suc.prems have idx: "js_index frows (Fin (int a)) = Some (frows ! a)" by simp
  have nxt: "js_add (Fin (int a)) (Fin 1) = Fin (int (Suc a))" by simp
  have upt: "[a..<b] = a # [Suc a..<b]" using lt by (simp add: upt_conv_Cons)
  show ?case
  proof (cases "pool = []")
    case True
    from Suc.hyps(1)[OF k Suc.prems, of pool "body @ [(element (frows ! a))\<lparr>data_original_index := Some (originalIndex (frows ! a))\<rparr>]" "Suc n"]
    obtain new where
      r: "renderRows frows (Fin (int (Suc a))) (Fin (int b))
            (pool, body @ [(element (frows ! a))\<lparr>data_original_index := Some (originalIndex (frows ! a))\<rparr>], Suc n) =
          ((take (length pool - (b - Suc a)) pool,
            (body @ [(element (frows ! a))\<lparr>data_original_index := Some (originalIndex (frows ! a))\<rparr>]) @ new,
            Suc n + ((b - Suc a) - length pool)), None)"
      and m: "map data_original_index new = map (\<lambda>i. Some (originalIndex (frows ! i))) [Suc a..<b]"
      by blast
    have "renderRows frows (Fin (int a)) (Fin (int b)) (pool, body, n) =
          renderRows frows (Fin (int (Suc a))) (Fin (int b))
            (pool, body @ [(element (frows ! a))\<lparr>data_original_index := Some (originalIndex (frows ! a))\<rparr>], Suc n)"
      using lt idx True by (subst renderRows.simps) (simp del: js_index.simps js_add.simps add: nxt)
    with r m True lt show ?thesis
      by (intro exI[of _ "(element (frows ! a))\<lparr>data_original_index := Some (originalIndex (frows ! a))\<rparr> # new"])
         (simp add: upt)
  next
    case False
    let ?x = "\<lparr>data_original_index = Some (originalIndex (frows ! a)),
               s_cells = patchCells (s_cells (last pool)) (cells (frows ! a))\<rparr>"
    from Suc.hyps(1)[OF k Suc.prems, of "butlast pool" "body @ [?x]" n]
    obtain new where
      r: "renderRows frows (Fin (int (Suc a))) (Fin (int b)) (butlast pool, body @ [?x], n) =
          ((take (length (butlast pool) - (b - Suc a)) (butlast pool), (body @ [?x]) @ new,
            n + ((b - Suc a) - length (butlast pool))), None)"
      and m: "map data_original_index new = map (\<lambda>i. Some (originalIndex (frows ! i))) [Suc a..<b]"
      by blast
    have "renderRows frows (Fin (int a)) (Fin (int b)) (pool, body, n) =
          renderRows frows (Fin (int (Suc a))) (Fin (int b)) (butlast pool, body @ [?x], n)"
      using lt idx False by (subst renderRows.simps) (simp del: js_index.simps js_add.simps add: nxt)
    moreover have "take (length (butlast pool) - (b - Suc a)) (butlast pool) = take (length pool - (b - a)) pool"
    proof -
      have "length (butlast pool) - (b - Suc a) = length pool - (b - a)"
        using False lt by (cases pool) auto
      moreover have "length pool - (b - a) < length pool"
        using False lt by (cases pool) auto
      ultimately show ?thesis by (simp only: take_butlast)
    qed
    moreover have "n + ((b - Suc a) - length (butlast pool)) = n + ((b - a) - length pool)"
      using False lt by (cases pool) auto
    ultimately show ?thesis using r m lt
      by (intro exI[of _ "?x # new"]) (simp add: upt)
  qed
qed

subsection \<open>Paging with a finite positive page size\<close>

lemma ceil_div_pos:
  "0 < d \<Longrightarrow> js_ceil_div n (Fin d) = Fin \<lceil>(of_nat n :: rat) / of_int d\<rceil>"
proof -
  assume "0 < d"
  have "\<lceil>(of_int (int n) :: rat) / of_int d\<rceil> = - (- int n div d)"
    by (rule ceiling_divide_eq_div)
  with \<open>0 < d\<close> show ?thesis by simp
qed

lemma clampPage_finite:
  assumes "displayLimit s = Fin d" "0 < d" "currentPageIndex s = Fin p"
  shows "clampPage s =
         s\<lparr>currentPageIndex :=
             Fin (if \<lceil>(of_nat (length (filteredRows s)) :: rat) / of_int d\<rceil> < p then 1 else p)\<rparr>"
  using assms by (simp add: clampPage_def totalPagesOf_def ceil_div_pos js_gt_def del: js_ceil_div.simps)

lemma reconcile_finite:
  assumes dl: "displayLimit s = Fin d" and cp: "currentPageIndex s = Fin q"
    and d: "0 < d" and q: "1 \<le> q"
  shows "snd (reconcile s) = (if hasTableInfo s then None else Some (TypeError ''tableInfo is null''))"
    and "map data_original_index (tbody (fst (reconcile s))) =
           map (\<lambda>i. Some (originalIndex (filteredRows s ! i)))
             [nat (d * (q - 1))..<nat (min (d * q) (int (length (filteredRows s))))]"
    and "allocated (fst (reconcile s)) =
           allocated s + ((nat (min (d * q) (int (length (filteredRows s)))) - nat (d * (q - 1)))
                          - (length (rowPool s) + length (tbody s)))"
    and "rowPool (fst (reconcile s)) =
           take (length (rowPool s) + length (tbody s)
                 - (nat (min (d * q) (int (length (filteredRows s)))) - nat (d * (q - 1))))
             (rowPool s @ tbody s)"
proof -
  let ?n = "length (filteredRows s)"
  let ?a = "nat (d * (q - 1))" and ?b = "nat (min (d * q) (int ?n))"
  have a0: "0 \<le> d * (q - 1)" using d q by simp
  have b0: "0 \<le> min (d * q) (int ?n)" using d q by simp
  have ia: "int ?a = d * (q - 1)" using a0 by simp
  have ib: "int ?b = min (d * q) (int ?n)" using b0 by simp
  have mn: "minIndexOf s = Fin (int ?a)"
    unfolding ia using dl cp by (simp add: minIndexOf_def)
  have mx: "maxIndexOf s = Fin (int ?b)"
    unfolding ib using dl cp by (auto simp: maxIndexOf_def min_def)
  have "?b \<le> ?n" by simp
  from renderRows_range[OF this, of ?a "rowPool s @ tbody s" "[]" "allocated s"]
  obtain new where
    r: "renderRows (filteredRows s) (Fin (int ?a)) (Fin (int ?b)) (rowPool s @ tbody s, [], allocated s) =
          ((take (length (rowPool s @ tbody s) - (?b - ?a)) (rowPool s @ tbody s), [] @ new,
            allocated s + ((?b - ?a) - length (rowPool s @ tbody s))), None)"
    and m: "map data_original_index new = map (\<lambda>i. Some (originalIndex (filteredRows s ! i))) [?a..<?b]"
    by blast
  have rec: "reconcile s =
        (let s4 = s\<lparr>rowPool := take (length (rowPool s @ tbody s) - (?b - ?a)) (rowPool s @ tbody s),
                     tbody := new,
                     allocated := allocated s + ((?b - ?a) - length (rowPool s @ tbody s))\<rparr>
         in if \<not> hasTableInfo s4 then (s4, Some (TypeError ''tableInfo is null''))
            else (s4\<lparr>tableInfo := Some (js_sub (Fin (int ?b)) (Fin (int ?a)), length (filteredRows s4),
                                         length (rowsCache s4))\<rparr>, None))"
    unfolding reconcile_def mn mx r by (simp only: prod.case option.case append_Nil)
  show "snd (reconcile s) = (if hasTableInfo s then None else Some (TypeError ''tableInfo is null''))"
    unfolding rec by (simp add: Let_def)
  show "map data_original_index (tbody (fst (reconcile s))) =
           map (\<lambda>i. Some (originalIndex (filteredRows s ! i))) [?a..<?b]"
    unfolding rec using m by (simp add: Let_def)
  show "allocated (fst (reconcile s)) = allocated s + ((?b - ?a) - (length (rowPool s) + length (tbody s)))"
    unfolding rec by (simp add: Let_def)
  show "rowPool (fst (reconcile s)) =
           take (length (rowPool s) + length (tbody s) - (?b - ?a)) (rowPool s @ tbody s)"
    unfolding rec by (simp add: Let_def)
qed

subsection \<open>A table without active filters\<close>

lemma jsFilter_all: "(\<And>x. x \<in> set xs \<Longrightarrow> p x = Inr True) \<Longrightarrow> jsFilter p xs = Inr xs"
  by (induction xs) simp_all

lemma applyFilters_no_filters:
  assumes "currentDateFilters s = []" "currentDateRangeFilters s = []" "currentValueFilters s = []"
  shows "applyFilters rt s = Inr (s\<lparr>filteredRows := rowsCache s\<rparr>)"
proof -
  have "jsFilter (filterCallback rt s) (rowsCache s) = Inr (rowsCache s)"
    by (rule jsFilter_all) (simp add: filterCallback_def assms)
  then show ?thesis by (simp add: applyFilters_def)
qed

lemma updateTable_no_filters:
  assumes nf: "currentDateFilters s = []" "currentDateRangeFilters s = []" "currentValueFilters s = []"
    and dl: "displayLimit s = Fin d" "0 < d" and cp: "currentPageIndex s = Fin p" "1 \<le> p"
    and ti: "hasTableInfo s"
  shows "snd (updateTable rt s) = None"
    and "filteredRows (fst (updateTable rt s)) = rowsCache (sortStep rt s)"
proof -
  let ?s1 = "sortStep rt s"
  let ?s2 = "?s1\<lparr>filteredRows := rowsCache ?s1\<rparr>"
  have af: "applyFilters rt ?s1 = Inr ?s2"
    by (rule applyFilters_no_filters) (simp_all add: sortStep_fields nf)
  then have ut: "updateTable rt s = reconcile (clampPage ?s2)"
    by (simp add: updateTable_def)
  have dl2: "displayLimit ?s2 = Fin d" and cp2: "currentPageIndex ?s2 = Fin p"
    using dl cp by (simp_all add: sortStep_fields)
  let ?q = "if \<lceil>(of_nat (length (filteredRows ?s2)) :: rat) / of_int d\<rceil> < p then 1 else p"
  have cl: "clampPage ?s2 = ?s2\<lparr>currentPageIndex := Fin ?q\<rparr>"
    by (rule clampPage_finite[OF dl2 dl(2) cp2])
  have q: "1 \<le> ?q" using cp(2) by simp
  have "snd (reconcile (clampPage ?s2)) =
        (if hasTableInfo (clampPage ?s2) then None else Some (TypeError ''tableInfo is null''))"
    by (rule reconcile_finite(1)[OF _ _ dl(2) q]) (simp_all add: cl dl sortStep_fields)
  then show "snd (updateTable rt s) = None"
    using ti by (simp add: ut clampPage_fields sortStep_fields)
  show "filteredRows (fst (updateTable rt s)) = rowsCache (sortStep rt s)"
    by (simp add: ut reconcile_fields clampPage_fields)
qed

lemma constructor_succeeds:
  assumes "container_table c = Some t" "body_rows t = Some allRows" "container_tableInfo c"
  shows "LiteTableManager rt (Some c) = Inr (fst (updateTable rt (initialState c t allRows)))"
proof -
  have "snd (updateTable rt (initialState c t allRows)) = None"
    by (rule updateTable_no_filters(1)[where d = 25 and p = 1])
       (simp_all add: initialState_def Let_def assms)
  then show ?thesis
    using assms by (cases "updateTable rt (initialState c t allRows)") (simp add: LiteTableManager_def)
qed

lemma example_constructed:
  "LiteTableManager sample_runtime (Some example_container) = Inr example_state"
  unfolding example_state_def
  by (rule constructor_succeeds) (simp_all add: example_container_def example_table_def)

section \<open>Cache integrity\<close>

text \<open>
  C1. Whatever is done to a manager after its construction from \<open>n\<close> body rows (header
  clicks through \<open>handleSort\<close>, direct calls of \<open>sortRows\<close>, and every other
  operation), the \<open>originalIndex\<close> values of the row cache are \<open>0, \<dots>, n - 1\<close>, each
  exactly once: sorting permutes the cache and neither drops, duplicates nor renumbers a row.
\<close>

theorem cache_integrity:
  assumes "LiteTableManager rt tableContainer = Inr s0"
  shows "mset (map originalIndex (rowsCache (run rt ops s0))) =
         mset [0..<length (sourceRows tableContainer)]"
proof -
  have "mset (rowsCache (run rt ops s0)) = mset (buildRowsCache (sourceRows tableContainer))"
    using constructor_rowsCache[OF assms] by (simp add: run_mset)
  then have "mset (map originalIndex (rowsCache (run rt ops s0))) =
             mset (map originalIndex (buildRowsCache (sourceRows tableContainer)))"
    by (metis mset_map)
  then show ?thesis by (simp only: buildRowsCache_index)
qed

theorem cache_integrity_witness:
  "LiteTableManager sample_runtime (Some example_container) = Inr example_state \<and>
   mset (map originalIndex
          (rowsCache (run sample_runtime [HandleSort 3, SortRows 1 Desc, HandleSort 3] example_state))) =
   mset [0..<3]"
proof -
  have h: "LiteTableManager sample_runtime (Some example_container) = Inr example_state"
    by (rule example_constructed)
  have n: "length (sourceRows (Some example_container)) = 3"
    by (simp add: sourceRows_def example_container_def example_table_def example_rows_def)
  show ?thesis
    using h cache_integrity[OF h, of "[HandleSort 3, SortRows 1 Desc, HandleSort 3]"]
    by (simp only: n)
qed

section \<open>Paging\<close>

text \<open>
  C4. In an update cycle that completes, with a page size \<open>d > 0\<close> and a page index
  \<open>p \<ge> 1\<close>: the filtered view is recomputed from the sorted cache, the page index is
  reset to 1 exactly if it exceeds \<open>totalPages = ceil(filteredCount / d)\<close>, and the rows
  then shown are those at the indices \<open>[d * (p' - 1), min (d * p') filteredCount)\<close> of the
  filtered view, in this order (\<open>p'\<close> the page index after the reset).
\<close>

theorem pagination_clamp_and_slice:
  fixes d p n totalPages p' :: int
  assumes "displayLimit s = Fin d" and "0 < d"
    and "currentPageIndex s = Fin p" and "1 \<le> p"
    and "updateTable rt s = (s', None)"
    and "n = int (length (filteredRows s'))"
    and "totalPages = \<lceil>(of_int n :: rat) / of_int d\<rceil>"
    and "p' = (if totalPages < p then 1 else p)"
  shows "applyFilters rt (sortStep rt s) = Inr ((sortStep rt s)\<lparr>filteredRows := filteredRows s'\<rparr>) \<and>
         currentPageIndex s' = Fin p' \<and>
         map data_original_index (tbody s') =
           map (\<lambda>i. Some (originalIndex (filteredRows s' ! i)))
             [nat (d * (p' - 1))..<nat (min (d * p') n)]"
proof -
  from assms(5) obtain s2 where af: "applyFilters rt (sortStep rt s) = Inr s2"
    and rc: "reconcile (clampPage s2) = (s', None)"
    by (auto simp: updateTable_def split: sum.splits)
  from applyFilters_Inr[OF af] obtain rows where
    s2: "s2 = (sortStep rt s)\<lparr>filteredRows := rows\<rparr>" by blast
  have dl2: "displayLimit s2 = Fin d" and cp2: "currentPageIndex s2 = Fin p"
    using s2 assms(1,3) by (simp_all add: sortStep_fields)
  have fr: "filteredRows s' = filteredRows s2"
    using rc reconcile_fields(2)[of "clampPage s2"] by (simp add: clampPage_fields)
  have n: "n = int (length (filteredRows s2))" using assms(6) fr by simp
  have cl: "clampPage s2 = s2\<lparr>currentPageIndex := Fin p'\<rparr>"
    using clampPage_finite[OF dl2 assms(2) cp2] assms(7,8) n by simp
  have p': "1 \<le> p'" using assms(4,8) by simp
  have cp': "currentPageIndex s' = Fin p'"
    using rc reconcile_fields(5)[of "clampPage s2"] cl by simp
  have "map data_original_index (tbody (fst (reconcile (clampPage s2)))) =
           map (\<lambda>i. Some (originalIndex (filteredRows (clampPage s2) ! i)))
             [nat (d * (p' - 1))..<nat (min (d * p') (int (length (filteredRows (clampPage s2)))))]"
    by (rule reconcile_finite(2)[OF _ _ assms(2) p']) (simp_all add: cl dl2)
  then have tb: "map data_original_index (tbody s') =
           map (\<lambda>i. Some (originalIndex (filteredRows s' ! i)))
             [nat (d * (p' - 1))..<nat (min (d * p') n)]"
    using rc fr n by (simp add: clampPage_fields)
  have "s2 = (sortStep rt s)\<lparr>filteredRows := filteredRows s'\<rparr>"
    using s2 fr by simp
  with af cp' tb show ?thesis by simp
qed

lemma length_sortStep: "length (rowsCache (sortStep rt s)) = length (rowsCache s)"
proof -
  have "size (mset (rowsCache (sortStep rt s))) = size (mset (rowsCache s))"
    by (simp only: sortStep_fields(1))
  then show ?thesis by simp
qed

lemma example_stale_page_update:
  "updateTable sample_runtime example_stale_page =
     (fst (updateTable sample_runtime example_stale_page), None)"
  "length (filteredRows (fst (updateTable sample_runtime example_stale_page))) = 3"
proof -
  have "snd (updateTable sample_runtime example_stale_page) = None"
    by (rule updateTable_no_filters(1)[where d = 25 and p = 3])
       (simp_all add: example_stale_page_def initialState_def Let_def example_container_def)
  then show "updateTable sample_runtime example_stale_page =
     (fst (updateTable sample_runtime example_stale_page), None)"
    by (simp add: prod_eq_iff)
  have "filteredRows (fst (updateTable sample_runtime example_stale_page)) =
        rowsCache (sortStep sample_runtime example_stale_page)"
    by (rule updateTable_no_filters(2)[where d = 25 and p = 3])
       (simp_all add: example_stale_page_def initialState_def Let_def example_container_def)
  then show "length (filteredRows (fst (updateTable sample_runtime example_stale_page))) = 3"
    by (simp add: length_sortStep)
       (simp add: example_stale_page_def initialState_def Let_def buildRowsCache_def example_rows_def)
qed

theorem pagination_clamp_and_slice_witness:
  "displayLimit example_stale_page = Fin 25 \<and> currentPageIndex example_stale_page = Fin 3 \<and>
   updateTable sample_runtime example_stale_page =
     (fst (updateTable sample_runtime example_stale_page), None) \<and>
   currentPageIndex (fst (updateTable sample_runtime example_stale_page)) = Fin 1 \<and>
   map data_original_index (tbody (fst (updateTable sample_runtime example_stale_page))) =
     map (\<lambda>i. Some (originalIndex (filteredRows (fst (updateTable sample_runtime example_stale_page)) ! i)))
       [0, 1, 2]"
proof -
  have dl: "displayLimit example_stale_page = Fin 25"
    and cp: "currentPageIndex example_stale_page = Fin 3"
    by (simp_all add: example_stale_page_def initialState_def Let_def)
  have u: "[0..<3] = [0, 1, 2::nat]" by (simp add: upt_rec)
  have c: "\<lceil>(3::rat) / 25\<rceil> = 1" by (rule ceiling_unique) simp_all
  show ?thesis
    using pagination_clamp_and_slice[OF dl _ cp _ example_stale_page_update(1) refl refl refl]
      dl cp example_stale_page_update(1)
    by (simp add: example_stale_page_update(2) c u)
qed

section \<open>The three-state sort cycle\<close>

lemma js_insert_index:
  "js_insert (\<lambda>a b. cmp_sign (Fin (int (f a) - int (f b)))) x ys = insort_key f x ys"
  by (induction ys) auto

lemma sortByOriginalIndex_sort_key: "sortByOriginalIndex rc = sort_key originalIndex rc"
proof -
  have "foldr (js_insert (\<lambda>a b. cmp_sign (Fin (int (originalIndex a) - int (originalIndex b))))) rc []
        = foldr (insort_key originalIndex) rc []"
    by (induction rc) (simp_all only: foldr.simps o_apply id_apply js_insert_index)
  then show ?thesis
    by (simp only: sortByOriginalIndex_def js_sort_def sort_key_def)
qed

lemma sortByOriginalIndex_restores:
  assumes "mset (map originalIndex rc) = mset [0..<n]"
  shows "map originalIndex (sortByOriginalIndex rc) = [0..<n]"
proof -
  let ?zs = "map originalIndex (sort_key originalIndex rc)"
  have "mset ?zs = mset [0..<n]" using assms by simp
  moreover have "sorted ?zs" by (rule sorted_sort_key)
  moreover have "sorted [0..<n]" by simp
  ultimately have "?zs = [0..<n]"
    by (metis properties_for_sort sorted_sort_id)
  then show ?thesis by (simp only: sortByOriginalIndex_sort_key)
qed

lemma handleSort_currentSort:
  "currentSort (fst (handleSort rt c s)) =
     (if column (currentSort s) = Some c then
        (if direction (currentSort s) = Some Asc then \<lparr>column = Some c, direction = Some Desc\<rparr>
         else if direction (currentSort s) = Some Desc then \<lparr>column = None, direction = None\<rparr>
         else \<lparr>column = Some c, direction = Some Asc\<rparr>)
      else \<lparr>column = Some c, direction = Some Asc\<rparr>)"
  by (simp add: handleSort_def Let_def updateTable_fields(3))

lemma handleSort_clear:
  assumes "currentSort s = \<lparr>column = Some c, direction = Some Desc\<rparr>"
  shows "rowsCache (fst (handleSort rt c s)) = sortByOriginalIndex (rowsCache s)"
proof -
  let ?s2 = "s\<lparr>currentSort := \<lparr>column = None, direction = None\<rparr>,
               rowsCache := sortByOriginalIndex (rowsCache s)\<rparr>"
  have "handleSort rt c s = updateTable rt ?s2"
    using assms by (simp add: handleSort_def Let_def)
  moreover have "sortStep rt ?s2 = ?s2" by (rule sortStep_inactive) simp
  ultimately show ?thesis by (simp add: updateTable_fields(2))
qed

lemma initialSort_column: "column (initialSort rc h) = Some c \<Longrightarrow> 2 \<le> c \<and> c < h"
  by (auto simp: initialSort_def find_Some_iff split: option.splits)

lemma example_state_fields:
  "column (currentSort example_state) \<noteq> Some 1"
  "mset (map originalIndex (rowsCache example_state)) = mset [0..<3]"
  "length (rowsCache example_state) = 3"
proof -
  have cs: "currentSort example_state = initialSort (buildRowsCache example_rows) (header_cells example_table)"
    by (simp add: example_state_def updateTable_fields(3) initialState_def Let_def)
  show "column (currentSort example_state) \<noteq> Some 1"
    using initialSort_column[of "buildRowsCache example_rows" "header_cells example_table" 1]
    by (auto simp: cs)
  have "mset (rowsCache example_state) = mset (buildRowsCache example_rows)"
    by (simp add: example_state_def updateTable_fields(1) initialState_def Let_def)
  then have m: "mset (map originalIndex (rowsCache example_state)) =
             mset (map originalIndex (buildRowsCache example_rows))"
    by (metis mset_map)
  have l: "length example_rows = 3" by (simp add: example_rows_def)
  show "mset (map originalIndex (rowsCache example_state)) = mset [0..<3]"
    using m l by (simp only: buildRowsCache_index)
  then have "size (mset (map originalIndex (rowsCache example_state))) = size (mset [0..<3])"
    by simp
  then show "length (rowsCache example_state) = 3" by simp
qed

text \<open>
  C2. Three activations of the header of a column that is not the sorted one: the first
  sorts ascending, the second descending, the third clears the sort
  (\<open>direction = null\<close>), and the row cache is then in ascending order of
  \<open>originalIndex\<close>, which is the order of the source rows; its rows are the same as before.
\<close>

theorem sort_tristate:
  assumes "column (currentSort s) \<noteq> Some c"
    and "mset (map originalIndex (rowsCache s)) = mset [0..<length (rowsCache s)]"
    and "s1 = fst (handleSort rt c s)"
    and "s2 = fst (handleSort rt c s1)"
    and "s3 = fst (handleSort rt c s2)"
  shows "currentSort s1 = \<lparr>column = Some c, direction = Some Asc\<rparr> \<and>
         currentSort s2 = \<lparr>column = Some c, direction = Some Desc\<rparr> \<and>
         currentSort s3 = \<lparr>column = None, direction = None\<rparr> \<and>
         map originalIndex (rowsCache s3) = [0..<length (rowsCache s)] \<and>
         mset (rowsCache s3) = mset (rowsCache s)"
proof -
  have c1: "currentSort s1 = \<lparr>column = Some c, direction = Some Asc\<rparr>"
    using assms(1,3) by (simp add: handleSort_currentSort)
  have c2: "currentSort s2 = \<lparr>column = Some c, direction = Some Desc\<rparr>"
    using c1 assms(4) by (simp add: handleSort_currentSort)
  have c3: "currentSort s3 = \<lparr>column = None, direction = None\<rparr>"
    using c2 assms(5) by (simp add: handleSort_currentSort)
  have m2: "mset (rowsCache s2) = mset (rowsCache s)"
    using assms(3,4) by (simp add: handleSort_mset)
  then have "mset (map originalIndex (rowsCache s2)) = mset [0..<length (rowsCache s)]"
    using assms(2) by (metis mset_map)
  then have "map originalIndex (sortByOriginalIndex (rowsCache s2)) = [0..<length (rowsCache s)]"
    by (rule sortByOriginalIndex_restores)
  moreover have "rowsCache s3 = sortByOriginalIndex (rowsCache s2)"
    using assms(5) handleSort_clear[OF c2] by simp
  moreover have "mset (rowsCache s3) = mset (rowsCache s)"
    using assms(5) m2 by (simp add: handleSort_mset)
  ultimately show ?thesis using c1 c2 c3 by simp
qed

theorem sort_tristate_witness:
  "column (currentSort example_state) \<noteq> Some 1 \<and>
   mset (map originalIndex (rowsCache example_state)) = mset [0..<length (rowsCache example_state)] \<and>
   map originalIndex
     (rowsCache (fst (handleSort sample_runtime 1
        (fst (handleSort sample_runtime 1 (fst (handleSort sample_runtime 1 example_state)))))))
   = [0, 1, 2]"
proof -
  have h: "mset (map originalIndex (rowsCache example_state)) = mset [0..<length (rowsCache example_state)]"
    by (simp only: example_state_fields)
  have u: "[0..<3] = [0, 1, 2::nat]" by (simp add: upt_rec)
  show ?thesis
    using sort_tristate[OF example_state_fields(1) h refl refl refl, of sample_runtime]
      example_state_fields(1) h
    by (simp only: example_state_fields(3) u) simp
qed

section \<open>Rows with an empty sort key\<close>

lemma set_js_insert: "set (js_insert cmp x ys) = insert x (set ys)"
  by (induction ys) auto

lemma endBlock_js_insert:
  assumes up: "\<And>a b. P a \<Longrightarrow> \<not> P b \<Longrightarrow> 0 < cmp a b"
      and down: "\<And>a b. \<not> P a \<Longrightarrow> P b \<Longrightarrow> cmp a b \<le> 0"
      and "endBlock P ys"
  shows "endBlock P (js_insert cmp x ys)"
  using assms(3)
proof (induction ys)
  case Nil
  then show ?case by simp
next
  case (Cons y ys)
  show ?case
  proof (cases "cmp x y \<le> 0")
    case True
    then have "P x \<Longrightarrow> P y" using up[of x y] by auto
    with True Cons.prems show ?thesis by (auto split: if_splits)
  next
    case False
    then have "P y \<Longrightarrow> P x" using down[of x y] by auto
    with False Cons show ?thesis
      by (auto simp: list_all_iff set_js_insert split: if_splits)
  qed
qed

lemma endBlock_js_sort:
  assumes "\<And>a b. P a \<Longrightarrow> \<not> P b \<Longrightarrow> 0 < cmp a b"
      and "\<And>a b. \<not> P a \<Longrightarrow> P b \<Longrightarrow> cmp a b \<le> 0"
  shows "endBlock P (js_sort cmp xs)"
  unfolding js_sort_def
  by (induction xs) (simp_all add: endBlock_js_insert[OF assms])

lemma endBlock_filter: "endBlock P xs \<Longrightarrow> xs = filter (\<lambda>x. \<not> P x) xs @ filter P xs"
proof (induction xs)
  case Nil
  then show ?case by simp
next
  case (Cons x xs)
  show ?case
  proof (cases "P x")
    case True
    with Cons.prems have "list_all P xs" by simp
    then have "filter P xs = xs" "filter (\<lambda>x. \<not> P x) xs = []"
      by (simp_all add: list_all_iff)
    with True show ?thesis by simp
  next
    case False
    with Cons show ?thesis by simp
  qed
qed

lemma sortCompare_empty:
  "cellTextAt a c = [] \<Longrightarrow> cellTextAt b c \<noteq> [] \<Longrightarrow> sortCompare rt ct c m a b = Fin m"
  "cellTextAt a c \<noteq> [] \<Longrightarrow> cellTextAt b c = [] \<Longrightarrow> sortCompare rt ct c m a b = Fin (- m)"
  by (simp_all add: sortCompare_def Let_def)

lemma example_desc_sort:
  "rowsCache (sortRows sample_runtime 0 Desc (managerOf [rowOf 0 [''b''], rowOf 1 [[]]])) =
     [rowOf 1 [[]], rowOf 0 [''b'']]"
  by (simp add: sortRows_def managerOf_def js_sort_def Let_def multiplierOf_def sortCompare_def
        cellTextAt_def rowOf_def)

text \<open>
  C5, as the code has it. After \<open>sortRows\<close> the rows with an empty text in the sorted
  column stand together at one end of the row cache: after all rows with a non-empty text
  when the direction is ascending, before all of them when it is descending.
\<close>

theorem empties_follow_direction:
  "rowsCache (sortRows rt c dir s) =
     (if dir = Asc
      then filter (\<lambda>r. cellTextAt r c \<noteq> []) (rowsCache (sortRows rt c dir s)) @
           filter (\<lambda>r. cellTextAt r c = []) (rowsCache (sortRows rt c dir s))
      else filter (\<lambda>r. cellTextAt r c = []) (rowsCache (sortRows rt c dir s)) @
           filter (\<lambda>r. cellTextAt r c \<noteq> []) (rowsCache (sortRows rt c dir s)))"
proof (cases dir)
  case Asc
  let ?cmp = "\<lambda>a b. cmp_sign (sortCompare rt (columnTypeOf rt (rowsCache s) c) c 1 a b)"
  have rc: "rowsCache (sortRows rt c Asc s) = js_sort ?cmp (rowsCache s)"
    by (simp add: sortRows_def multiplierOf_def Let_def)
  have "endBlock (\<lambda>r. cellTextAt r c = []) (js_sort ?cmp (rowsCache s))"
    by (rule endBlock_js_sort) (simp_all add: sortCompare_empty)
  then have "js_sort ?cmp (rowsCache s) =
        filter (\<lambda>r. cellTextAt r c \<noteq> []) (js_sort ?cmp (rowsCache s)) @
        filter (\<lambda>r. cellTextAt r c = []) (js_sort ?cmp (rowsCache s))"
    by (rule endBlock_filter)
  then show ?thesis
    unfolding Asc rc if_P[OF refl] .
next
  case Desc
  let ?cmp = "\<lambda>a b. cmp_sign (sortCompare rt (columnTypeOf rt (rowsCache s) c) c (- 1) a b)"
  have rc: "rowsCache (sortRows rt c Desc s) = js_sort ?cmp (rowsCache s)"
    by (simp add: sortRows_def multiplierOf_def Let_def)
  have "endBlock (\<lambda>r. cellTextAt r c \<noteq> []) (js_sort ?cmp (rowsCache s))"
    by (rule endBlock_js_sort) (simp_all add: sortCompare_empty)
  then have "js_sort ?cmp (rowsCache s) =
        filter (\<lambda>r. \<not> cellTextAt r c \<noteq> []) (js_sort ?cmp (rowsCache s)) @
        filter (\<lambda>r. cellTextAt r c \<noteq> []) (js_sort ?cmp (rowsCache s))"
    by (rule endBlock_filter)
  then have "js_sort ?cmp (rowsCache s) =
        filter (\<lambda>r. cellTextAt r c = []) (js_sort ?cmp (rowsCache s)) @
        filter (\<lambda>r. cellTextAt r c \<noteq> []) (js_sort ?cmp (rowsCache s))"
    by (simp only: not_not)
  then show ?thesis
    unfolding Desc rc if_not_P[OF sort_dir.distinct(2)] .
qed

theorem empties_follow_direction_witness:
  "rowsCache (sortRows sample_runtime 0 Desc (managerOf [rowOf 0 [''b''], rowOf 1 [[]]])) =
     filter (\<lambda>r. cellTextAt r 0 = [])
       (rowsCache (sortRows sample_runtime 0 Desc (managerOf [rowOf 0 [''b''], rowOf 1 [[]]]))) @
     filter (\<lambda>r. cellTextAt r 0 \<noteq> [])
       (rowsCache (sortRows sample_runtime 0 Desc (managerOf [rowOf 0 [''b''], rowOf 1 [[]]])))"
  using empties_follow_direction[of sample_runtime 0 Desc "managerOf [rowOf 0 [''b''], rowOf 1 [[]]]"]
  by simp

text \<open>
  C5 as stated fails for the descending direction: of the two rows with the texts \<open>b\<close>
  and the empty string, the row with the empty text comes first.
\<close>

theorem empties_last_counterexample:
  "cellTextAt (rowsCache (sortRows sample_runtime 0 Desc
                 (managerOf [rowOf 0 [''b''], rowOf 1 [[]]])) ! 0) 0 = [] \<and>
   cellTextAt (rowsCache (sortRows sample_runtime 0 Desc
                 (managerOf [rowOf 0 [''b''], rowOf 1 [[]]])) ! 1) 0 = ''b''"
  unfolding example_desc_sort by (simp add: cellTextAt_def rowOf_def)

section \<open>Inference of the column type\<close>

text \<open>
  C6. The sample for the column type is the text of the first row that has a cell in the
  column, empty or not. When that text is empty the type stays text, although a later row
  holds a date: the inference from the first non-empty cell, which the specification
  describes, gives the type date on the same rows.
\<close>

theorem column_type_sample_divergence:
  "columnTypeOf sample_runtime [rowOf 0 [[]], rowOf 1 [''15/04/2025'']] 0 = ColText \<and>
   spec_columnTypeOf sample_runtime [rowOf 0 [[]], rowOf 1 [''15/04/2025'']] 0 = ColDate"
  by (simp add: columnTypeOf_def sampleValue_def spec_columnTypeOf_def cellTextAt_def rowOf_def is_digit_def)

section \<open>The pool of row elements\<close>

lemma renderRows_accounting:
  "renderRows frows i mx st = (st', e) \<Longrightarrow> e \<noteq> Some (TypeError ''rowData is undefined'') \<Longrightarrow>
     length (fst st') + length (fst (snd st')) + snd (snd st) =
       length (fst st) + length (fst (snd st)) + snd (snd st') \<and>
     snd (snd st) \<le> snd (snd st') \<and>
     length (fst st') \<le> length (fst st) \<and>
     (snd (snd st) < snd (snd st') \<longrightarrow> fst st' = [])"
proof (induction frows i mx st arbitrary: st' e rule: renderRows.induct)
  case (1 frows i maxIndex pool body n)
  show ?case
  proof (cases "js_lt i maxIndex")
    case False
    with "1.prems" show ?thesis by (simp add: renderRows.simps)
  next
    case True
    show ?thesis
    proof (cases "js_index frows i")
      case None
      with True "1.prems" show ?thesis by (simp add: renderRows.simps)
    next
      case (Some rowData)
      show ?thesis
      proof (cases "pool = []")
        case False
        let ?x = "\<lparr>data_original_index = Some (originalIndex rowData),
                   s_cells = patchCells (s_cells (last pool)) (cells rowData)\<rparr>"
        have "renderRows frows (js_add i (Fin 1)) maxIndex (butlast pool, body @ [?x], n) = (st', e)"
          using "1.prems"(1) True Some False by (subst (asm) renderRows.simps) simp
        from "1.IH"(1)[OF True Some False this "1.prems"(2)] False
        show ?thesis by (cases pool) (auto split: if_splits)
      next
        case True2: True
        let ?x = "(element rowData)\<lparr>data_original_index := Some (originalIndex rowData)\<rparr>"
        have "renderRows frows (js_add i (Fin 1)) maxIndex (pool, body @ [?x], Suc n) = (st', e)"
          using "1.prems"(1) True Some True2 by (subst (asm) renderRows.simps) simp
        from "1.IH"(2)[OF True Some _ this "1.prems"(2)] True2
        show ?thesis by auto
      qed
    qed
  qed
qed

lemma reconcile_accounting:
  assumes inv: "allocated s = length (rowPool s) + length (tbody s)"
    and r: "reconcile s = (s', e)"
    and e: "e \<noteq> Some (TypeError ''rowData is undefined'')"
  shows "allocated s' = length (rowPool s') + length (tbody s')"
    and "allocated s' \<le> max (allocated s) (length (tbody s'))"
proof -
  obtain pool body n thrown where
    rr: "renderRows (filteredRows s) (minIndexOf s) (maxIndexOf s)
           (rowPool s @ tbody s, [], allocated s) = ((pool, body, n), thrown)"
    by (metis prod_cases3 surj_pair)
  have s': "rowPool s' = pool \<and> tbody s' = body \<and> allocated s' = n"
    and th: "thrown \<noteq> Some (TypeError ''rowData is undefined'')"
    using r e by (auto simp: reconcile_def rr Let_def split: option.splits if_splits)
  from renderRows_accounting[OF rr th]
  have a: "length pool + length body + allocated s = length (rowPool s) + length (tbody s) + n"
    and b: "allocated s \<le> n" and c: "allocated s < n \<longrightarrow> pool = []"
    by simp_all
  show "allocated s' = length (rowPool s') + length (tbody s')"
    using a inv s' by simp
  show "allocated s' \<le> max (allocated s) (length (tbody s'))"
    using a b c inv s' by (cases "allocated s < n") auto
qed

lemma updateTable_accounting:
  assumes inv: "allocated s = length (rowPool s) + length (tbody s)"
    and r: "updateTable rt s = (s', e)"
    and e: "e \<noteq> Some (TypeError ''rowData is undefined'')"
  shows "allocated s' = length (rowPool s') + length (tbody s')"
    and "allocated s' \<le> max (allocated s) (length (tbody s'))"
proof -
  show "allocated s' = length (rowPool s') + length (tbody s')"
  proof (cases "applyFilters rt (sortStep rt s)")
    case (Inl err)
    with r inv show ?thesis by (auto simp: updateTable_def sortStep_fields)
  next
    case (Inr s2)
    then have rc: "reconcile (clampPage s2) = (s', e)" using r by (simp add: updateTable_def)
    from applyFilters_Inr[OF Inr] inv
    have "allocated (clampPage s2) = length (rowPool (clampPage s2)) + length (tbody (clampPage s2))"
      by (auto simp: clampPage_fields sortStep_fields)
    from reconcile_accounting(1)[OF this rc e] show ?thesis .
  qed
  show "allocated s' \<le> max (allocated s) (length (tbody s'))"
  proof (cases "applyFilters rt (sortStep rt s)")
    case (Inl err)
    with r inv show ?thesis by (auto simp: updateTable_def sortStep_fields)
  next
    case (Inr s2)
    then have rc: "reconcile (clampPage s2) = (s', e)" using r by (simp add: updateTable_def)
    from applyFilters_Inr[OF Inr] inv
    have i2: "allocated (clampPage s2) = length (rowPool (clampPage s2)) + length (tbody (clampPage s2))"
      and a2: "allocated (clampPage s2) = allocated s"
      by (auto simp: clampPage_fields sortStep_fields)
    from reconcile_accounting(2)[OF i2 rc e] a2 show ?thesis by simp
  qed
qed

lemma perform_accounting:
  assumes inv: "allocated s = length (rowPool s) + length (tbody s)"
    and r: "perform rt op s = (s', e)"
    and e: "e \<noteq> Some (TypeError ''rowData is undefined'')"
  shows "allocated s' = length (rowPool s') + length (tbody s') \<and>
         allocated s' \<le> max (allocated s) (length (tbody s'))"
proof (cases op)
  case (HandleSort c)
  obtain s2 where h: "handleSort rt c s = updateTable rt s2"
    and f: "allocated s2 = allocated s" "rowPool s2 = rowPool s" "tbody s2 = tbody s"
    by (simp add: handleSort_def Let_def)
  from h r HandleSort have u: "updateTable rt s2 = (s', e)" by simp
  from updateTable_accounting[OF _ u e] inv f show ?thesis by simp
next
  case (SortRows c d)
  with r inv show ?thesis by (auto simp: sortRows_fields)
next
  case (SetDisplayLimit v)
  with r have u: "updateTable rt (s\<lparr>displayLimit := v\<rparr>) = (s', e)" by simp
  from updateTable_accounting[OF _ u e] inv show ?thesis by simp
next
  case (GoToPage v)
  with r have u: "updateTable rt (s\<lparr>currentPageIndex := v\<rparr>) = (s', e)" by simp
  from updateTable_accounting[OF _ u e] inv show ?thesis by simp
next
  case (SetDateRangeFilter c v)
  with r have u: "updateTable rt (s\<lparr>currentDateRangeFilters := setEntry c v (currentDateRangeFilters s)\<rparr>) = (s', e)" by simp
  from updateTable_accounting[OF _ u e] inv show ?thesis by simp
next
  case (SetDateFilter c v)
  with r have u: "updateTable rt (s\<lparr>currentDateFilters := setEntry c v (currentDateFilters s)\<rparr>) = (s', e)" by simp
  from updateTable_accounting[OF _ u e] inv show ?thesis by simp
next
  case (SetValueFilter c v)
  with r have u: "updateTable rt (s\<lparr>currentValueFilters := setEntry c v (currentValueFilters s)\<rparr>) = (s', e)" by simp
  from updateTable_accounting[OF _ u e] inv show ?thesis by simp
next
  case UpdateTable
  with r have u: "updateTable rt s = (s', e)" by simp
  from updateTable_accounting[OF inv u e] show ?thesis by simp
qed

lemma outcomes_bound:
  assumes "allocated s = length (rowPool s) + length (tbody s)" and "allocated s \<le> K"
    and "\<forall>(s', e) \<in> set (outcomes rt ops s).
           length (tbody s') \<le> K \<and> e \<noteq> Some (TypeError ''rowData is undefined'')"
  shows "\<forall>(s', e) \<in> set (outcomes rt ops s).
           allocated s' = length (rowPool s') + length (tbody s') \<and> allocated s' \<le> K"
  using assms
proof (induction ops arbitrary: s)
  case Nil
  then show ?case by simp
next
  case (Cons op ops)
  obtain s1 e1 where p: "perform rt op s = (s1, e1)" by (cases "perform rt op s")
  from Cons.prems(3) p have b1: "length (tbody s1) \<le> K"
    and e1: "e1 \<noteq> Some (TypeError ''rowData is undefined'')"
    and rest: "\<forall>(s', e) \<in> set (outcomes rt ops s1).
           length (tbody s') \<le> K \<and> e \<noteq> Some (TypeError ''rowData is undefined'')"
    by simp_all
  from perform_accounting[OF Cons.prems(1) p e1]
  have i1: "allocated s1 = length (rowPool s1) + length (tbody s1)"
    and a1: "allocated s1 \<le> max (allocated s) (length (tbody s1))" by simp_all
  from a1 b1 Cons.prems(2) have k1: "allocated s1 \<le> K" by simp
  from Cons.IH[OF i1 k1 rest] i1 k1 p show ?case by simp
qed

lemma updateTable_no_filters_page:
  assumes nf: "currentDateFilters s = []" "currentDateRangeFilters s = []" "currentValueFilters s = []"
    and dl: "displayLimit s = Fin d" "0 < d" and cp: "currentPageIndex s = Fin p" "1 \<le> p"
  shows "\<exists>q\<ge>1. currentPageIndex (fst (updateTable rt s)) = Fin q"
    and "length (tbody (fst (updateTable rt s))) \<le> length (rowsCache s)"
proof -
  let ?s1 = "sortStep rt s"
  let ?s2 = "?s1\<lparr>filteredRows := rowsCache ?s1\<rparr>"
  have af: "applyFilters rt ?s1 = Inr ?s2"
    by (rule applyFilters_no_filters) (simp_all add: sortStep_fields nf)
  then have ut: "updateTable rt s = reconcile (clampPage ?s2)"
    by (simp add: updateTable_def)
  have dl2: "displayLimit ?s2 = Fin d" and cp2: "currentPageIndex ?s2 = Fin p"
    using dl cp by (simp_all add: sortStep_fields)
  let ?q = "if \<lceil>(of_nat (length (filteredRows ?s2)) :: rat) / of_int d\<rceil> < p then 1 else p"
  have cl: "clampPage ?s2 = ?s2\<lparr>currentPageIndex := Fin ?q\<rparr>"
    by (rule clampPage_finite[OF dl2 dl(2) cp2])
  have q: "1 \<le> ?q" using cp(2) by simp
  have "currentPageIndex (fst (updateTable rt s)) = Fin ?q"
    by (simp add: ut reconcile_fields(5)) (simp add: cl)
  with q show "\<exists>q\<ge>1. currentPageIndex (fst (updateTable rt s)) = Fin q" by blast
  let ?n = "length (filteredRows (clampPage ?s2))"
  have "map data_original_index (tbody (fst (reconcile (clampPage ?s2)))) =
           map (\<lambda>i. Some (originalIndex (filteredRows (clampPage ?s2) ! i)))
             [nat (d * (?q - 1))..<nat (min (d * ?q) (int ?n))]"
    by (rule reconcile_finite(2)[OF _ _ dl(2) q]) (simp_all add: cl dl sortStep_fields)
  then have "length (tbody (fst (reconcile (clampPage ?s2)))) =
             length [nat (d * (?q - 1))..<nat (min (d * ?q) (int ?n))]"
    by (metis length_map)
  then have "length (tbody (fst (updateTable rt s))) \<le> ?n"
    by (simp add: ut)
  then show "length (tbody (fst (updateTable rt s))) \<le> length (rowsCache s)"
    by (simp add: clampPage_fields length_sortStep)
qed

lemma length_updateTable: "length (rowsCache (fst (updateTable rt s))) = length (rowsCache s)"
proof -
  have "size (mset (rowsCache (fst (updateTable rt s)))) = size (mset (rowsCache s))"
    by (simp only: updateTable_fields(1))
  then show ?thesis by simp
qed

lemma example_state_plain:
  "currentDateFilters example_state = []"
  "currentDateRangeFilters example_state = []"
  "currentValueFilters example_state = []"
  "displayLimit example_state = Fin 25"
  "hasTableInfo example_state"
  "\<exists>q\<ge>1. currentPageIndex example_state = Fin q"
  "length (tbody example_state) \<le> 3"
proof -
  show "currentDateFilters example_state = []" "currentDateRangeFilters example_state = []"
    "currentValueFilters example_state = []" "displayLimit example_state = Fin 25"
    "hasTableInfo example_state"
    by (simp_all add: example_state_def updateTable_fields initialState_def Let_def
          example_container_def)
  show "\<exists>q\<ge>1. currentPageIndex example_state = Fin q"
    unfolding example_state_def
    by (rule updateTable_no_filters_page(1)[where d = 25 and p = 1])
       (simp_all add: initialState_def Let_def)
  have "length (tbody example_state) \<le>
        length (rowsCache (initialState example_container example_table example_rows))"
    unfolding example_state_def
    by (rule updateTable_no_filters_page(2)[where d = 25 and p = 1])
       (simp_all add: initialState_def Let_def)
  then show "length (tbody example_state) \<le> 3"
    by (simp add: initialState_def Let_def buildRowsCache_def example_rows_def)
qed

text \<open>
  C3. After the construction of a manager and any sequence of operations on it: if the body
  shows at most \<open>K\<close> rows after the first update cycle and after every later one, and no
  cycle is cut short by an undefined row in the render loop, then at no moment have more
  than \<open>K\<close> row elements been created, and every element created is in the pool or
  in the body. The render loop moves every displayed element to the pool, takes an element
  from the pool while there is one, and creates an element only when the pool is empty.
\<close>

theorem pool_bound:
  assumes "LiteTableManager rt tableContainer = Inr s0"
    and "length (tbody s0) \<le> K"
    and "\<forall>(s, e) \<in> set (outcomes rt ops s0).
           length (tbody s) \<le> K \<and> e \<noteq> Some (TypeError ''rowData is undefined'')"
  shows "allocated s0 = length (rowPool s0) + length (tbody s0) \<and> allocated s0 \<le> K \<and>
         (\<forall>(s, e) \<in> set (outcomes rt ops s0).
             allocated s = length (rowPool s) + length (tbody s) \<and> allocated s \<le> K)"
proof -
  from constructor_Inr[OF assms(1)] obtain c t allRows where
    u: "updateTable rt (initialState c t allRows) = (s0, None)" by blast
  have i0: "allocated (initialState c t allRows) =
            length (rowPool (initialState c t allRows)) + length (tbody (initialState c t allRows))"
    and z: "allocated (initialState c t allRows) = 0"
    by (simp_all add: initialState_def Let_def)
  from updateTable_accounting[OF i0 u] z
  have inv: "allocated s0 = length (rowPool s0) + length (tbody s0)"
    and "allocated s0 \<le> length (tbody s0)" by simp_all
  with assms(2) have k: "allocated s0 \<le> K" by simp
  from outcomes_bound[OF inv k assms(3)] inv k show ?thesis by simp
qed

theorem pool_bound_witness:
  "LiteTableManager sample_runtime (Some example_container) = Inr example_state \<and>
   length (tbody example_state) \<le> 3 \<and>
   allocated example_state \<le> 3 \<and>
   allocated (run sample_runtime [SetDisplayLimit (Fin 2), GoToPage (Fin 2)] example_state) \<le> 3"
proof -
  let ?a = "example_state\<lparr>displayLimit := Fin 2\<rparr>"
  let ?s1 = "fst (updateTable sample_runtime ?a)"
  let ?b = "?s1\<lparr>currentPageIndex := Fin 2\<rparr>"
  let ?s2 = "fst (updateTable sample_runtime ?b)"
  obtain q where q: "1 \<le> q" "currentPageIndex example_state = Fin q"
    using example_state_plain(6) by blast
  have e1: "snd (updateTable sample_runtime ?a) = None"
    by (rule updateTable_no_filters(1)[where d = 2 and p = q])
       (simp_all add: example_state_plain q)
  have t1: "length (tbody ?s1) \<le> length (rowsCache ?a)"
    by (rule updateTable_no_filters_page(2)[where d = 2 and p = q])
       (simp_all add: example_state_plain q)
  have l1: "length (rowsCache ?s1) = 3"
    by (simp add: length_updateTable example_state_fields(3))
  have e2: "snd (updateTable sample_runtime ?b) = None"
    by (rule updateTable_no_filters(1)[where d = 2 and p = 2])
       (simp_all add: updateTable_fields example_state_plain)
  have t2: "length (tbody ?s2) \<le> length (rowsCache ?b)"
    by (rule updateTable_no_filters_page(2)[where d = 2 and p = 2])
       (simp_all add: updateTable_fields(4,6,7,8) example_state_plain)
  have h: "\<forall>(s, e) \<in> set (outcomes sample_runtime [SetDisplayLimit (Fin 2), GoToPage (Fin 2)] example_state).
           length (tbody s) \<le> 3 \<and> e \<noteq> Some (TypeError ''rowData is undefined'')"
    using e1 t1 e2 t2 l1 by (simp add: case_prod_beta example_state_fields(3))
  from pool_bound[OF example_constructed example_state_plain(7) h]
  have "allocated example_state \<le> 3"
    and "allocated ?s2 \<le> 3"
    by (simp_all add: case_prod_beta)
  then show ?thesis
    using example_constructed example_state_plain(7) by simp
qed

section \<open>An unbounded page size\<close>

lemma renderRows_NaN: "renderRows frows NaN mx st = (st, None)"
  by (cases st) (simp add: renderRows.simps)

lemma updateTable_unbounded:
  assumes nf: "currentDateFilters s = []" "currentDateRangeFilters s = []" "currentValueFilters s = []"
    and dl: "displayLimit s = PInf" and cp: "currentPageIndex s = Fin p" "1 \<le> p"
    and ti: "hasTableInfo s"
  shows "totalPagesOf (fst (updateTable rt s)) = Fin 0"
    and "filteredRows (fst (updateTable rt s)) = rowsCache (sortStep rt s)"
    and "tbody (fst (updateTable rt s)) = []"
    and "tableInfo (fst (updateTable rt s)) =
           Some (NaN, length (rowsCache s), length (rowsCache s))"
proof -
  let ?s1 = "sortStep rt s"
  let ?s2 = "?s1\<lparr>filteredRows := rowsCache ?s1\<rparr>"
  let ?s3 = "?s2\<lparr>currentPageIndex := Fin 1\<rparr>"
  have af: "applyFilters rt ?s1 = Inr ?s2"
    by (rule applyFilters_no_filters) (simp_all add: sortStep_fields nf)
  then have ut: "updateTable rt s = reconcile (clampPage ?s2)"
    by (simp add: updateTable_def)
  have cl: "clampPage ?s2 = ?s3"
    using dl cp by (simp add: clampPage_def totalPagesOf_def js_gt_def sortStep_fields)
  have mn: "minIndexOf ?s3 = NaN"
    using dl by (simp add: minIndexOf_def sortStep_fields)
  have mx: "maxIndexOf ?s3 = Fin (int (length (rowsCache ?s1)))"
    using dl by (simp add: maxIndexOf_def sortStep_fields)
  have rec: "reconcile ?s3 =
     (?s3\<lparr>rowPool := rowPool s @ tbody s, tbody := [], allocated := allocated s,
           tableInfo := Some (NaN, length (rowsCache ?s1), length (rowsCache ?s1))\<rparr>, None)"
    using ti by (simp add: reconcile_def mn mx renderRows_NaN Let_def sortStep_fields)
  show "totalPagesOf (fst (updateTable rt s)) = Fin 0"
    using dl by (simp add: ut cl rec totalPagesOf_def sortStep_fields)
  show "filteredRows (fst (updateTable rt s)) = rowsCache (sortStep rt s)"
    by (simp add: ut cl rec)
  show "tbody (fst (updateTable rt s)) = []"
    by (simp add: ut cl rec)
  show "tableInfo (fst (updateTable rt s)) = Some (NaN, length (rowsCache s), length (rowsCache s))"
    by (simp add: ut cl rec length_sortStep)
qed

text \<open>
  C9. With \<open>displayLimit = Infinity\<close> the update cycle computes \<open>totalPages = 0\<close> (the
  ceiling of \<open>n / Infinity\<close>), \<open>minIndex = Infinity * 0 = NaN\<close>, and its render loop does
  not run: on the example, with three rows in the filtered view, the body is left empty and
  the summary reports NaN rows shown.
\<close>

theorem unbounded_page_size_shows_nothing:
  "totalPagesOf (fst (perform sample_runtime (SetDisplayLimit PInf) example_state)) = Fin 0 \<and>
   length (filteredRows (fst (perform sample_runtime (SetDisplayLimit PInf) example_state))) = 3 \<and>
   tbody (fst (perform sample_runtime (SetDisplayLimit PInf) example_state)) = [] \<and>
   tableInfo (fst (perform sample_runtime (SetDisplayLimit PInf) example_state)) = Some (NaN, 3, 3)"
proof -
  let ?a = "example_state\<lparr>displayLimit := PInf\<rparr>"
  obtain q where q: "1 \<le> q" "currentPageIndex example_state = Fin q"
    using example_state_plain(6) by blast
  have nf: "currentDateFilters ?a = []" "currentDateRangeFilters ?a = []" "currentValueFilters ?a = []"
    and dl: "displayLimit ?a = PInf" and cp: "currentPageIndex ?a = Fin q" and ti: "hasTableInfo ?a"
    by (simp_all add: example_state_plain q)
  have "length (filteredRows (fst (updateTable sample_runtime ?a))) = 3"
    by (simp add: updateTable_unbounded(2)[OF nf dl cp q(1) ti] length_sortStep
          example_state_fields(3))
  then show ?thesis
    using updateTable_unbounded(1,3,4)[OF nf dl cp q(1) ti, of sample_runtime]
    by (simp add: example_state_fields(3))
qed

section \<open>The filtered view\<close>

lemma jsFilter_Inr:
  "jsFilter p xs = Inr ys \<Longrightarrow>
     ys = filter (\<lambda>x. p x = Inr True) xs \<and> (\<forall>x \<in> set xs. \<exists>b. p x = Inr b)"
  by (induction xs arbitrary: ys) (auto split: sum.splits)

lemma jsFilter_total:
  "(\<And>x. x \<in> set xs \<Longrightarrow> p x = Inr (q x)) \<Longrightarrow> jsFilter p xs = Inr (filter q xs)"
  by (induction xs) simp_all

lemma jsFilter_Inl:
  assumes "x \<in> set xs" "p x = Inl E" "\<And>y e. y \<in> set xs \<Longrightarrow> p y = Inl e \<Longrightarrow> e = E"
  shows "jsFilter p xs = Inl E"
  using assms
proof (induction xs)
  case Nil
  then show ?case by simp
next
  case (Cons y ys)
  show ?case
  proof (cases "p y")
    case (Inl e)
    with Cons.prems(3)[of y e] show ?thesis by simp
  next
    case (Inr keep)
    with Cons.prems(1,2) have "x \<in> set ys" by auto
    have "\<And>z e. z \<in> set ys \<Longrightarrow> p z = Inl e \<Longrightarrow> e = E"
      using Cons.prems(3) by (meson list.set_intros(2))
    from Cons.IH[OF \<open>x \<in> set ys\<close> Cons.prems(2) this] have "jsFilter p ys = Inl E" .
    with Inr show ?thesis by simp
  qed
qed

lemma isDateInRange_error:
  "isDateInRange rt t v = Inl e \<Longrightarrow> e = Error ''Invalid date format. Use DD/MM/YYYY''"
  by (simp add: isDateInRange_def Let_def split: if_splits)

lemma isDateInRange_malformed:
  "\<not> matchesDatePattern t \<Longrightarrow>
     isDateInRange rt t v = Inl (Error ''Invalid date format. Use DD/MM/YYYY'')"
  by (simp add: isDateInRange_def)

lemma dateFiltersLoop_Inr:
  "dateFiltersLoop rt r fs = Inr b \<Longrightarrow>
     b = (\<forall>(c, v) \<in> set fs. v \<noteq> [] \<longrightarrow> isDateInRange rt (cellTextAt r c) v = Inr True)"
  by (induction fs) (auto split: if_splits sum.splits)

lemma dateFiltersLoop_error:
  "dateFiltersLoop rt r fs = Inl e \<Longrightarrow> e = Error ''Invalid date format. Use DD/MM/YYYY''"
  by (induction fs) (auto split: if_splits sum.splits dest: isDateInRange_error)

lemma dateFiltersLoop_inactive:
  "(\<forall>(c, v) \<in> set fs. v = []) \<Longrightarrow> dateFiltersLoop rt r fs = Inr True"
  by (induction fs) auto

lemma dateFiltersLoop_first_active:
  "(\<forall>(c, v) \<in> set pre. v = []) \<Longrightarrow> v \<noteq> [] \<Longrightarrow>
     dateFiltersLoop rt r (pre @ (c, v) # post) =
       (case isDateInRange rt (cellTextAt r c) v of
          Inl e \<Rightarrow> Inl e
        | Inr inRange \<Rightarrow> if \<not> inRange then Inr False else dateFiltersLoop rt r post)"
  by (induction pre) auto

lemma dateRangeFiltersLoop_iff:
  "dateRangeFiltersLoop rt r fs =
     (\<forall>(c, rng) \<in> set fs. truthy (range_from rng) \<or> truthy (range_to rng) \<longrightarrow> dateRangeTest rt r c rng)"
proof (induction fs)
  case Nil
  then show ?case by simp
next
  case (Cons f fs)
  obtain c rng where f: "f = (c, rng)" by (cases f)
  show ?case unfolding f using Cons.IH by (cases "dateRangeTest rt r c rng") auto
qed

lemma valueFiltersLoop_iff:
  "valueFiltersLoop r fs = (\<forall>(c, v) \<in> set fs. v \<noteq> [] \<longrightarrow> cellTextAt r c = v)"
proof (induction fs)
  case Nil
  then show ?case by simp
next
  case (Cons f fs)
  obtain c v where f: "f = (c, v)" by (cases f)
  show ?case unfolding f using Cons.IH by (cases "cellTextAt r c = v") auto
qed

lemma filterCallback_Inr:
  "filterCallback rt s r = Inr b \<Longrightarrow> b = spec_passesFilters rt s r"
  by (auto simp: filterCallback_def spec_passesFilters_def dateRangeFiltersLoop_iff
        valueFiltersLoop_iff split: sum.splits if_splits dest!: dateFiltersLoop_Inr)

lemma filterCallback_error:
  "filterCallback rt s r = Inl e \<Longrightarrow> e = Error ''Invalid date format. Use DD/MM/YYYY''"
  by (auto simp: filterCallback_def split: sum.splits if_splits dest: dateFiltersLoop_error)

lemma filterCallback_total:
  assumes "\<forall>(c, v) \<in> set (currentDateFilters s). v = []"
  shows "filterCallback rt s r = Inr (spec_passesFilters rt s r)"
proof -
  have "\<exists>b. filterCallback rt s r = Inr b"
    using dateFiltersLoop_inactive[OF assms, of rt r] by (auto simp: filterCallback_def)
  then show ?thesis using filterCallback_Inr by blast
qed

lemma applyFilters_total:
  assumes "\<forall>(c, v) \<in> set (currentDateFilters s). v = []"
  shows "applyFilters rt s = Inr (s\<lparr>filteredRows := filter (spec_passesFilters rt s) (rowsCache s)\<rparr>)"
proof -
  have "jsFilter (filterCallback rt s) (rowsCache s) = Inr (filter (spec_passesFilters rt s) (rowsCache s))"
    by (rule jsFilter_total) (rule filterCallback_total[OF assms])
  then show ?thesis by (simp add: applyFilters_def)
qed

lemma rowOf_cell: "i < length txts \<Longrightarrow> cellTextAt (rowOf k txts) i = txts ! i"
  by (simp add: cellTextAt_def rowOf_def)

text \<open>
  C8. When \<open>applyFilters\<close> returns, the filtered view is the row cache, in its order,
  restricted to the rows that pass every active filter. A filter that is not active
  (an empty categorical or bucket value, a range with both bounds unset) asks for nothing,
  so that without filters every row is kept; an active categorical filter is passed by
  exactly the rows whose cell text equals its value, character by character.
\<close>

theorem applyFilters_filtered_view:
  assumes "applyFilters rt s = Inr s'"
  shows "s' = s\<lparr>filteredRows := filter (spec_passesFilters rt s) (rowsCache s)\<rparr> \<and>
         ((\<forall>(c, v) \<in> set (currentValueFilters s). v = []) \<and>
          (\<forall>(c, v) \<in> set (currentDateFilters s). v = []) \<and>
          (\<forall>(c, rng) \<in> set (currentDateRangeFilters s).
              \<not> truthy (range_from rng) \<and> \<not> truthy (range_to rng))
            \<longrightarrow> filteredRows s' = rowsCache s)"
proof -
  from applyFilters_Inr[OF assms] obtain rows where
    j: "jsFilter (filterCallback rt s) (rowsCache s) = Inr rows" and s': "s' = s\<lparr>filteredRows := rows\<rparr>"
    by blast
  from jsFilter_Inr[OF j] have rows: "rows = filter (\<lambda>x. filterCallback rt s x = Inr True) (rowsCache s)"
    and tot: "\<forall>x \<in> set (rowsCache s). \<exists>b. filterCallback rt s x = Inr b" by simp_all
  have "filter (\<lambda>x. filterCallback rt s x = Inr True) (rowsCache s) =
        filter (spec_passesFilters rt s) (rowsCache s)"
  proof (rule filter_cong[OF refl])
    fix x assume "x \<in> set (rowsCache s)"
    with tot obtain b where b: "filterCallback rt s x = Inr b" by blast
    from filterCallback_Inr[OF b] b
    show "(filterCallback rt s x = Inr True) = spec_passesFilters rt s x" by simp
  qed
  with rows s' have a: "s' = s\<lparr>filteredRows := filter (spec_passesFilters rt s) (rowsCache s)\<rparr>"
    by simp
  moreover have "(\<forall>(c, v) \<in> set (currentValueFilters s). v = []) \<and>
          (\<forall>(c, v) \<in> set (currentDateFilters s). v = []) \<and>
          (\<forall>(c, rng) \<in> set (currentDateRangeFilters s).
              \<not> truthy (range_from rng) \<and> \<not> truthy (range_to rng))
            \<longrightarrow> filteredRows s' = rowsCache s"
  proof
    assume "(\<forall>(c, v) \<in> set (currentValueFilters s). v = []) \<and>
          (\<forall>(c, v) \<in> set (currentDateFilters s). v = []) \<and>
          (\<forall>(c, rng) \<in> set (currentDateRangeFilters s).
              \<not> truthy (range_from rng) \<and> \<not> truthy (range_to rng))"
    then have "\<And>r. spec_passesFilters rt s r"
      by (auto simp: spec_passesFilters_def)
    then show "filteredRows s' = rowsCache s" using a by simp
  qed
  ultimately show ?thesis by simp
qed

theorem applyFilters_filtered_view_witness:
  "applyFilters sample_runtime
     ((managerOf example_dated)\<lparr>currentValueFilters := [(0, ''Active''), (1, [])]\<rparr>) =
   Inr ((managerOf example_dated)
          \<lparr>currentValueFilters := [(0, ''Active''), (1, [])],
           filteredRows := [rowOf 0 [''Active'', ''n/a''], rowOf 2 [''Active'', ''16/04/2025'']]\<rparr>) \<and>
   applyFilters sample_runtime ((managerOf example_dated)\<lparr>currentValueFilters := [(0, [])]\<rparr>) =
   Inr ((managerOf example_dated)\<lparr>currentValueFilters := [(0, [])], filteredRows := example_dated\<rparr>)"
proof -
  let ?s = "(managerOf example_dated)\<lparr>currentValueFilters := [(0, ''Active''), (1, [])]\<rparr>"
  have t: "applyFilters sample_runtime ?s =
           Inr (?s\<lparr>filteredRows := filter (spec_passesFilters sample_runtime ?s) (rowsCache ?s)\<rparr>)"
    by (rule applyFilters_total) (simp add: managerOf_def)
  have "filter (spec_passesFilters sample_runtime ?s) (rowsCache ?s) =
        [rowOf 0 [''Active'', ''n/a''], rowOf 2 [''Active'', ''16/04/2025'']]"
    by (simp add: spec_passesFilters_def managerOf_def example_dated_def rowOf_cell)
  with applyFilters_filtered_view[OF t] t
  have 1: "applyFilters sample_runtime ?s =
           Inr (?s\<lparr>filteredRows := [rowOf 0 [''Active'', ''n/a''], rowOf 2 [''Active'', ''16/04/2025'']]\<rparr>)"
    by simp
  let ?u = "(managerOf example_dated)\<lparr>currentValueFilters := [(0, [])]\<rparr>"
  let ?u' = "?u\<lparr>filteredRows := filter (spec_passesFilters sample_runtime ?u) (rowsCache ?u)\<rparr>"
  have t': "applyFilters sample_runtime ?u = Inr ?u'"
    by (rule applyFilters_total) (simp add: managerOf_def)
  have h: "(\<forall>(c, v) \<in> set (currentValueFilters ?u). v = []) \<and>
          (\<forall>(c, v) \<in> set (currentDateFilters ?u). v = []) \<and>
          (\<forall>(c, rng) \<in> set (currentDateRangeFilters ?u).
              \<not> truthy (range_from rng) \<and> \<not> truthy (range_to rng))"
    by (simp add: managerOf_def)
  from applyFilters_filtered_view[OF t', THEN conjunct2, THEN mp, OF h]
  have "filter (spec_passesFilters sample_runtime ?u) (rowsCache ?u) = example_dated"
    by (simp add: managerOf_def)
  with t' have 2: "applyFilters sample_runtime ?u = Inr (?u\<lparr>filteredRows := example_dated\<rparr>)"
    by simp
  from 1 2 show ?thesis by simp
qed

section \<open>Malformed dates in the filters\<close>

lemma set_sortStep: "set (rowsCache (sortStep rt s)) = set (rowsCache s)"
  by (metis sortStep_fields(1) set_mset_mset)

lemma renderRows_error:
  "renderRows frows i mx st = (st', Some e) \<Longrightarrow> e = TypeError ''rowData is undefined''"
proof (induction frows i mx st arbitrary: st' rule: renderRows.induct)
  case (1 frows i maxIndex pool body n)
  from "1.prems" have lt: "js_lt i maxIndex"
    by (subst (asm) renderRows.simps) (simp split: if_splits)
  show ?case
  proof (cases "js_index frows i")
    case None
    with lt "1.prems" show ?thesis by (subst (asm) renderRows.simps) simp
  next
    case (Some rowData)
    show ?thesis
    proof (cases "pool = []")
      case False
      with lt Some "1.prems" "1.IH"(1)[OF lt Some False] show ?thesis
        by (subst (asm) renderRows.simps) simp
    next
      case True
      then have np: "\<not> pool \<noteq> []" by simp
      from True lt Some "1.prems" "1.IH"(2)[OF lt Some np] show ?thesis
        by (subst (asm) renderRows.simps) simp
    qed
  qed
qed

lemma reconcile_error:
  "snd (reconcile s) \<noteq> Some (Error msg)"
proof -
  obtain st thrown where
    rr: "renderRows (filteredRows s) (minIndexOf s) (maxIndexOf s)
           (rowPool s @ tbody s, [], allocated s) = (st, thrown)"
    by (cases "renderRows (filteredRows s) (minIndexOf s) (maxIndexOf s)
           (rowPool s @ tbody s, [], allocated s)")
  show ?thesis
  proof (cases thrown)
    case None
    with rr show ?thesis by (cases st) (auto simp: reconcile_def Let_def)
  next
    case (Some e)
    with rr renderRows_error have "e = TypeError ''rowData is undefined''" by blast
    with rr Some show ?thesis by (cases st) (auto simp: reconcile_def Let_def)
  qed
qed

text \<open>
  C7. For a row of the cache whose cell in column \<open>c\<close> does not match \<open>DD/MM/YYYY\<close>:
  \<open>isDateInRange\<close> throws on the text of the cell; if the first active bucketed-date
  filter is on column \<open>c\<close>, the update cycle ends with that exception, right after the
  sort step; if no bucketed-date filter is active and a date-range filter with a bound is on
  column \<open>c\<close>, the update cycle does not end with that exception and the row is not in
  the filtered view.
\<close>

theorem filter_error_asymmetry:
  assumes "r \<in> set (rowsCache s)" and "\<not> matchesDatePattern (cellTextAt r c)"
  shows "isDateInRange rt (cellTextAt r c) v = Inl (Error ''Invalid date format. Use DD/MM/YYYY'') \<and>
         (currentDateFilters s = pre @ (c, v) # post \<and> (\<forall>(c', v') \<in> set pre. v' = []) \<and> v \<noteq> []
            \<longrightarrow> updateTable rt s =
                  (sortStep rt s, Some (Error ''Invalid date format. Use DD/MM/YYYY''))) \<and>
         ((\<forall>(c', v') \<in> set (currentDateFilters s). v' = []) \<and>
          (c, rng) \<in> set (currentDateRangeFilters s) \<and>
          (truthy (range_from rng) \<or> truthy (range_to rng))
            \<longrightarrow> snd (updateTable rt s) \<noteq> Some (Error ''Invalid date format. Use DD/MM/YYYY'') \<and>
                  r \<notin> set (filteredRows (fst (updateTable rt s))))"
proof (intro conjI impI)
  let ?E = "Error ''Invalid date format. Use DD/MM/YYYY''"
  let ?s1 = "sortStep rt s"
  show e: "isDateInRange rt (cellTextAt r c) v = Inl ?E"
    by (rule isDateInRange_malformed[OF assms(2)])
  have r1: "r \<in> set (rowsCache ?s1)" using assms(1) by (simp add: set_sortStep)
  {
    assume a: "currentDateFilters s = pre @ (c, v) # post \<and> (\<forall>(c', v') \<in> set pre. v' = []) \<and> v \<noteq> []"
    then have "dateFiltersLoop rt r (currentDateFilters ?s1) = Inl ?E"
      by (simp add: sortStep_fields dateFiltersLoop_first_active e)
    then have fc: "filterCallback rt ?s1 r = Inl ?E" by (simp add: filterCallback_def)
    have "jsFilter (filterCallback rt ?s1) (rowsCache ?s1) = Inl ?E"
      by (rule jsFilter_Inl[where x = r]) (use r1 fc filterCallback_error in blast)+
    then have "applyFilters rt ?s1 = Inl ?E" by (simp add: applyFilters_def)
    then show "updateTable rt s = (?s1, Some ?E)" by (simp add: updateTable_def)
  }
  {
    assume b: "(\<forall>(c', v') \<in> set (currentDateFilters s). v' = []) \<and>
          (c, rng) \<in> set (currentDateRangeFilters s) \<and>
          (truthy (range_from rng) \<or> truthy (range_to rng))"
    let ?s2 = "?s1\<lparr>filteredRows := filter (spec_passesFilters rt ?s1) (rowsCache ?s1)\<rparr>"
    have af: "applyFilters rt ?s1 = Inr ?s2"
      by (rule applyFilters_total) (use b in \<open>simp add: sortStep_fields\<close>)
    then have ut: "updateTable rt s = reconcile (clampPage ?s2)" by (simp add: updateTable_def)
    show "snd (updateTable rt s) \<noteq> Some ?E" unfolding ut by (rule reconcile_error)
    have "\<not> dateRangeTest rt r c rng" using assms(2) by (simp add: dateRangeTest_def)
    with b have "\<not> spec_passesFilters rt ?s1 r"
      by (auto simp: spec_passesFilters_def sortStep_fields)
    then show "r \<notin> set (filteredRows (fst (updateTable rt s)))"
      by (simp add: ut reconcile_fields clampPage_fields)
  }
qed

theorem filter_error_asymmetry_witness:
  "rowOf 0 [''Active'', ''n/a''] \<in> set example_dated \<and>
   \<not> matchesDatePattern (cellTextAt (rowOf 0 [''Active'', ''n/a'']) 1) \<and>
   updateTable sample_runtime ((managerOf example_dated)\<lparr>currentDateFilters := [(1, ''week'')]\<rparr>) =
     ((managerOf example_dated)\<lparr>currentDateFilters := [(1, ''week'')]\<rparr>,
      Some (Error ''Invalid date format. Use DD/MM/YYYY'')) \<and>
   rowOf 0 [''Active'', ''n/a''] \<notin>
     set (filteredRows (fst (updateTable sample_runtime
            ((managerOf example_dated)
               \<lparr>currentDateRangeFilters :=
                  [(1, \<lparr>range_from = Some ''2025-04-01'', range_to = None\<rparr>)]\<rparr>))))"
proof -
  let ?r = "rowOf 0 [''Active'', ''n/a'']"
  let ?a = "(managerOf example_dated)\<lparr>currentDateFilters := [(1, ''week'')]\<rparr>"
  let ?b = "(managerOf example_dated)
               \<lparr>currentDateRangeFilters := [(1, \<lparr>range_from = Some ''2025-04-01'', range_to = None\<rparr>)]\<rparr>"
  have m: "\<not> matchesDatePattern (cellTextAt ?r 1)" by (simp add: rowOf_cell)
  have ra: "?r \<in> set (rowsCache ?a)" and rb: "?r \<in> set (rowsCache ?b)"
    by (simp_all add: managerOf_def example_dated_def)
  have sa: "sortStep sample_runtime ?a = ?a"
    by (rule sortStep_inactive) (simp add: managerOf_def)
  have ha: "currentDateFilters ?a = [] @ (1, ''week'') # [] \<and>
            (\<forall>(c', v') \<in> set ([] :: (nat \<times> string) list). v' = []) \<and> ''week'' \<noteq> []"
    by (simp add: managerOf_def)
  have hb: "(\<forall>(c', v') \<in> set (currentDateFilters ?b). v' = []) \<and>
            (1, \<lparr>range_from = Some ''2025-04-01'', range_to = None\<rparr>) \<in> set (currentDateRangeFilters ?b) \<and>
            (truthy (range_from \<lparr>range_from = Some ''2025-04-01'', range_to = None\<rparr>) \<or>
             truthy (range_to \<lparr>range_from = Some ''2025-04-01'', range_to = None\<rparr>))"
    by (simp add: managerOf_def truthy_def)
  from filter_error_asymmetry[OF ra m, THEN conjunct2, THEN conjunct1, THEN mp, OF ha]
  have 1: "updateTable sample_runtime ?a = (?a, Some (Error ''Invalid date format. Use DD/MM/YYYY''))"
    by (simp only: sa)
  from filter_error_asymmetry[OF rb m, THEN conjunct2, THEN conjunct2, THEN mp, OF hb]
  have 2: "?r \<notin> set (filteredRows (fst (updateTable sample_runtime ?b)))"
    by (rule conjunct2)
  show ?thesis using m 1 2 by (simp add: example_dated_def)
qed

section \<open>The sort state after construction\<close>




































end
